theory Spec2Isabelle
  imports Complex_Main "HOL-Library.Sublist"
begin

section \<open>Strings as the Python backend uses them\<close>

text \<open>
  Strings are lists of characters, and a character is a code point below 256, which
  is what \<^typ>\<open>char\<close> holds. On these code points \<open>str.lower\<close> maps the letters
  \<open>A\<close> to \<open>Z\<close> and the codes 0xC0 to 0xDE other than 0xD7 to the code 32 above
  them and leaves every other character alone, and the white space of \<open>str.split\<close>
  and \<open>str.strip\<close> is the codes 0x09 to 0x0D, 0x1C to 0x20, 0x85 and 0xA0. The test
  \<open>needle in haystack\<close> on two strings is \<^term>\<open>sublist needle haystack\<close> (a
  contiguous run).
\<close>

definition upper_letters :: string where
  "upper_letters =
     ''ABCDEFGHIJKLMNOPQRSTUVWXYZ'' @
     [CHR 0xC0, CHR 0xC1, CHR 0xC2, CHR 0xC3, CHR 0xC4, CHR 0xC5, CHR 0xC6, CHR 0xC7,
      CHR 0xC8, CHR 0xC9, CHR 0xCA, CHR 0xCB, CHR 0xCC, CHR 0xCD, CHR 0xCE, CHR 0xCF,
      CHR 0xD0, CHR 0xD1, CHR 0xD2, CHR 0xD3, CHR 0xD4, CHR 0xD5, CHR 0xD6,
      CHR 0xD8, CHR 0xD9, CHR 0xDA, CHR 0xDB, CHR 0xDC, CHR 0xDD, CHR 0xDE]"

definition lower_letters :: string where
  "lower_letters =
     ''abcdefghijklmnopqrstuvwxyz'' @
     [CHR 0xE0, CHR 0xE1, CHR 0xE2, CHR 0xE3, CHR 0xE4, CHR 0xE5, CHR 0xE6, CHR 0xE7,
      CHR 0xE8, CHR 0xE9, CHR 0xEA, CHR 0xEB, CHR 0xEC, CHR 0xED, CHR 0xEE, CHR 0xEF,
      CHR 0xF0, CHR 0xF1, CHR 0xF2, CHR 0xF3, CHR 0xF4, CHR 0xF5, CHR 0xF6,
      CHR 0xF8, CHR 0xF9, CHR 0xFA, CHR 0xFB, CHR 0xFC, CHR 0xFD, CHR 0xFE]"

definition lower_char :: "char \<Rightarrow> char" where
  "lower_char c =
     (case map_of (zip upper_letters lower_letters) c of
        Some l \<Rightarrow> l
      | None \<Rightarrow> c)"

definition str_lower :: "string \<Rightarrow> string" where
  "str_lower s = map lower_char s"

definition is_space :: "char \<Rightarrow> bool" where
  "is_space c = (c \<in> set [CHR 0x09, CHR 0x0A, CHR 0x0B, CHR 0x0C, CHR 0x0D,
                            CHR 0x1C, CHR 0x1D, CHR 0x1E, CHR 0x1F, CHR 0x20,
                            CHR 0x85, CHR 0xA0])"

text \<open>Splitting at the characters a predicate marks: the maximal runs of the other
  characters. \<open>s.split()\<close> splits at white space.\<close>

fun split_on :: "(char \<Rightarrow> bool) \<Rightarrow> string \<Rightarrow> string \<Rightarrow> string list" where
  "split_on sep cur [] = (if cur = [] then [] else [cur])"
| "split_on sep cur (c # cs) =
     (if sep c then (if cur = [] then split_on sep [] cs else cur # split_on sep [] cs)
      else split_on sep (cur @ [c]) cs)"

definition str_split :: "string \<Rightarrow> string list" where
  "str_split s = split_on is_space [] s"

text \<open>\<open>s.strip()\<close>: white space removed at both ends.\<close>

definition str_strip :: "string \<Rightarrow> string" where
  "str_strip s = rev (dropWhile is_space (rev (dropWhile is_space s)))"

section \<open>The healthcare guardrail (\<open>validate_healthcare_query\<close>)\<close>

datatype py_error = ValueError string | TypeError

definition healthcare_keywords :: "string list" where
  "healthcare_keywords =
     [''hospital'', ''doctor'', ''medical'', ''health'', ''injury'', ''pain'', ''sick'', ''treatment'',
      ''emergency'', ''clinic'', ''nurse'', ''medicine'', ''symptom'', ''fever'', ''hurt'', ''wound'',
      ''care'', ''therapy'', ''diagnosis'', ''patient'', ''healthcare'', ''wellness'', ''disease'',
      ''infection'', ''surgery'', ''prescription'', ''urgent care'', ''pharmacy'', ''specialist'']"

definition non_healthcare_indicators :: "string list" where
  "non_healthcare_indicators =
     [''weather forecast'', ''stock price'', ''news'', ''sports'', ''entertainment'',
      ''cooking recipe'', ''travel'', ''shopping'', ''politics'', ''business'',
      ''technology review'', ''movie'', ''music'', ''game'', ''fashion'']"

definition out_of_scope_alert :: "string \<Rightarrow> string" where
  "out_of_scope_alert indicator =
     ''Healthcare System Alert: This system is specialized for healthcare and hospital evaluation only. Your query about ''
     @ [CHR 0x27] @ indicator @ [CHR 0x27]
     @ '' is outside our scope. Please ask about hospitals, medical care, injuries, healthcare services, or weather-related health concerns.''"

definition rephrase_alert :: string where
  "rephrase_alert =
     ''Healthcare System Alert: Please specify your healthcare-related question. This system helps with hospital evaluation, medical care, injuries, healthcare services, and weather-related health concerns. Please rephrase your query to include healthcare context.''"

text \<open>
  The \<open>for\<close> loop raises at the first indicator, in list order, that occurs in the
  lower-cased input; \<open>any(...)\<close> is \<^const>\<open>list_ex\<close>; the word count is taken of the
  input as given.
\<close>

definition validate_healthcare_query :: "string \<Rightarrow> py_error + string" where
  "validate_healthcare_query user_input =
     (let user_input_lower = str_lower user_input in
      case find (\<lambda>indicator. sublist indicator user_input_lower) non_healthcare_indicators of
        Some indicator \<Rightarrow> Inl (ValueError (out_of_scope_alert indicator))
      | None \<Rightarrow>
          (let has_healthcare_content =
                 list_ex (\<lambda>keyword. sublist keyword user_input_lower) healthcare_keywords
           in if \<not> has_healthcare_content \<and> length (str_split user_input) > 3
              then Inl (ValueError rephrase_alert)
              else Inr user_input))"

section \<open>JSON values\<close>

text \<open>
  The value \<open>json.loads\<close> returns in the backend and \<open>response.json()\<close> in the
  frontend. Numbers are exact reals here; only their being zero or not is ever used.
\<close>

datatype json =
    JNull
  | JBool bool
  | JNum real
  | JStr string
  | JArr "json list"
  | JObj "(string \<times> json) list"

section \<open>The hospital RAG functions of the backend\<close>

subsection \<open>The name pattern\<close>

text \<open>
  \<open>re.search(r'(.*?(?:Hospital|Medical Center|Clinic|Care Center))', content, re.IGNORECASE)\<close>:
  the alternatives are tried in the order written, letters compare without case (below
  code point 256 a character matches a letter of the pattern exactly when the two agree
  after \<open>str.lower\<close>), the
  lazy \<open>.*?\<close> takes one more character only when no alternative matches, \<open>.\<close> does
  not match a line feed, and \<open>search\<close> moves the start one place to the right when the
  pattern fails at a start. The group is the whole match. \<open>hospital_name_of\<close> is the
  value the function binds to \<open>hospital_name\<close>.
\<close>

definition facility_suffixes :: "string list" where
  "facility_suffixes = [''Hospital'', ''Medical Center'', ''Clinic'', ''Care Center'']"

definition matches_here :: "string \<Rightarrow> string \<Rightarrow> bool" where
  "matches_here a s = prefix (str_lower a) (str_lower s)"

definition match_alternation :: "string \<Rightarrow> string option" where
  "match_alternation s =
     map_option (\<lambda>a. take (length a) s) (find (\<lambda>a. matches_here a s) facility_suffixes)"

fun match_lazy :: "string \<Rightarrow> string option" where
  "match_lazy [] = match_alternation []"
| "match_lazy (c # cs) =
     (case match_alternation (c # cs) of
        Some m \<Rightarrow> Some m
      | None \<Rightarrow> if c = CHR 0x0A then None else map_option (\<lambda>m. c # m) (match_lazy cs))"

fun re_search :: "string \<Rightarrow> string option" where
  "re_search [] = match_lazy []"
| "re_search (c # cs) =
     (case match_lazy (c # cs) of
        Some m \<Rightarrow> Some m
      | None \<Rightarrow> re_search cs)"

definition hospital_name_of :: "string \<Rightarrow> string" where
  "hospital_name_of content =
     (case re_search content of
        Some name_match \<Rightarrow> str_strip name_match
      | None \<Rightarrow> ''Unknown Hospital'')"

subsection \<open>Coordinates from the OpenAI client\<close>

text \<open>
  The client is outside the program. One call either raises (a network failure, a
  time-out, a response without text: \<open>ApiError\<close>) or yields the text of the first
  choice. \<open>json.loads\<close> is a parameter: \<open>None\<close> is its \<open>JSONDecodeError\<close>.
\<close>

datatype openai_reply = ApiError | Reply string

type_synonym openai_call = "string \<Rightarrow> string \<Rightarrow> string \<Rightarrow> openai_reply"

text \<open>\<open>key in value\<close> on a decoded value: keys of a dict, elements of a list, a
  substring of a string, and a \<open>TypeError\<close> on anything else.\<close>

fun py_in :: "string \<Rightarrow> json \<Rightarrow> py_error + bool" where
  "py_in k (JObj kvs) = Inr (map_of kvs k \<noteq> None)"
| "py_in k (JArr xs) = Inr (JStr k \<in> set xs)"
| "py_in k (JStr s) = Inr (sublist k s)"
| "py_in k JNull = Inl TypeError"
| "py_in k (JBool b) = Inl TypeError"
| "py_in k (JNum x) = Inl TypeError"

fun py_truthy :: "json \<Rightarrow> bool" where
  "py_truthy JNull = False"
| "py_truthy (JBool b) = b"
| "py_truthy (JNum x) = (x \<noteq> 0)"
| "py_truthy (JStr s) = (s \<noteq> [])"
| "py_truthy (JArr xs) = (xs \<noteq> [])"
| "py_truthy (JObj kvs) = (kvs \<noteq> [])"

text \<open>Every exception inside the \<open>try\<close> ends in the \<open>except\<close>, after which the
  function returns \<open>None\<close>.\<close>

definition extract_coordinates_with_openai ::
  "(string \<Rightarrow> json option) \<Rightarrow> openai_call \<Rightarrow> string \<Rightarrow> string \<Rightarrow> string \<Rightarrow> json option" where
  "extract_coordinates_with_openai json_loads create hospital_name address location =
     (case create hospital_name address location of
        ApiError \<Rightarrow> None
      | Reply content \<Rightarrow>
          (case json_loads (str_strip content) of
             None \<Rightarrow> None
           | Some coordinates \<Rightarrow>
               (case py_in ''lat'' coordinates of
                  Inl e \<Rightarrow> None
                | Inr has_lat \<Rightarrow>
                    if has_lat
                    then (case py_in ''lng'' coordinates of
                            Inl e \<Rightarrow> None
                          | Inr has_lng \<Rightarrow> if has_lng then Some coordinates else None)
                    else None)))"

subsection \<open>One narrative entry\<close>

record hospital_info =
  name :: string
  address :: string
  phone :: string
  services :: "string list"
  rating :: real
  emergency :: bool
  urgent_care :: bool
  coordinates :: "json option"
  relevance_score :: json

record rag_result =
  content :: string
  metadata :: "(string \<times> json) list"

definition dict_get :: "(string \<times> json) list \<Rightarrow> string \<Rightarrow> json \<Rightarrow> json" where
  "dict_get d k dflt = (case map_of d k of Some v \<Rightarrow> v | None \<Rightarrow> dflt)"

definition opt_truthy :: "json option \<Rightarrow> bool" where
  "opt_truthy v = (case v of None \<Rightarrow> False | Some j \<Rightarrow> py_truthy j)"

text \<open>
  Nothing in the \<open>try\<close> of \<open>parse_hospital_from_rag_content\<close> raises on a string
  and a dict (the coordinate function catches its own exceptions), so the \<open>except\<close>
  that returns \<open>None\<close> is never entered and the result is always a record.
\<close>

definition parse_hospital_from_rag_content ::
  "(string \<Rightarrow> json option) \<Rightarrow> openai_call \<Rightarrow> string \<Rightarrow> (string \<times> json) list \<Rightarrow> string
     \<Rightarrow> hospital_info option" where
  "parse_hospital_from_rag_content json_loads create content_text meta location =
     (let hospital_name = hospital_name_of content_text;
          hospital_info =
            \<lparr> name = hospital_name,
              address = ''123 Healthcare Blvd, '' @ location,
              phone = ''(555) 123-4567'',
              services = [''Emergency Care'', ''Urgent Care'', ''General Medicine''],
              rating = 4.2,
              emergency = True,
              urgent_care = True,
              coordinates = None,
              relevance_score = dict_get meta ''relevance_score'' (JNum 0.0) \<rparr>
      in if \<not> opt_truthy (coordinates hospital_info)
         then (let coords = extract_coordinates_with_openai json_loads create
                              hospital_name (address hospital_info) location
               in if opt_truthy coords
                  then Some (hospital_info\<lparr>coordinates := coords\<rparr>)
                  else Some hospital_info)
         else Some hospital_info)"

subsection \<open>The batch and the endpoint\<close>

definition mock_rag_results :: "string \<Rightarrow> rag_result list" where
  "mock_rag_results location =
     [\<lparr> content = ''Regional Medical Center near '' @ location
            @ '' - Full-service hospital with emergency department, trauma center, and specialized care units. Located at downtown area with 24/7 availability.'',
         metadata = [(''relevance_score'', JNum 0.95), (''source'', JStr ''hospital_directory'')] \<rparr>,
      \<lparr> content = ''City General Hospital in '' @ location
            @ '' - Community hospital offering urgent care, family medicine, and surgical services. Known for excellent patient care and modern facilities.'',
         metadata = [(''relevance_score'', JNum 0.88), (''source'', JStr ''healthcare_database'')] \<rparr>,
      \<lparr> content = ''Emergency Care Center near '' @ location
            @ '' - Specialized emergency and urgent care facility with fast treatment times and expert medical staff.'',
         metadata = [(''relevance_score'', JNum 0.82), (''source'', JStr ''emergency_services'')] \<rparr>]"

text \<open>
  The loop of \<open>extract_hospital_locations_from_rag\<close> over any list of entries. The
  client may answer differently at every call, so it is indexed by the number of the
  call; every entry makes exactly one.
\<close>

fun collect_hospitals ::
  "(string \<Rightarrow> json option) \<Rightarrow> (nat \<Rightarrow> openai_call) \<Rightarrow> string \<Rightarrow> nat \<Rightarrow> rag_result list
     \<Rightarrow> hospital_info list" where
  "collect_hospitals json_loads client location n [] = []"
| "collect_hospitals json_loads client location n (result # rest) =
     (case parse_hospital_from_rag_content json_loads (client n)
             (content result) (metadata result) location of
        Some hospital_info \<Rightarrow>
          hospital_info # collect_hospitals json_loads client location (Suc n) rest
      | None \<Rightarrow> collect_hospitals json_loads client location (Suc n) rest)"

definition extract_hospital_locations_from_rag ::
  "(string \<Rightarrow> json option) \<Rightarrow> (nat \<Rightarrow> openai_call) \<Rightarrow> string \<Rightarrow> string \<Rightarrow> hospital_info list" where
  "extract_hospital_locations_from_rag json_loads client location injury_type =
     collect_hospitals json_loads client location 0 (mock_rag_results location)"

text \<open>The request model \<open>HospitalRagRequest\<close> and the dict the endpoint returns;
  the prefixes \<open>req_\<close> and \<open>resp_\<close> tell the fields of the one from the keys of the
  other.\<close>

record hospital_rag_request =
  req_location :: string
  req_injury_type :: string
  max_results :: int

record hospital_rag_response =
  success :: bool
  hospitals :: "hospital_info list"
  resp_location :: string
  resp_injury_type :: string
  total_found :: nat

text \<open>\<open>xs[:n]\<close>: the first \<open>n\<close> elements, and for a negative \<open>n\<close> all but the last
  \<open>-n\<close>.\<close>

definition slice_to :: "'a list \<Rightarrow> int \<Rightarrow> 'a list" where
  "slice_to xs n = (if 0 \<le> n then take (nat n) xs else take (nat (int (length xs) + n)) xs)"

definition get_hospitals_from_rag ::
  "(string \<Rightarrow> json option) \<Rightarrow> (nat \<Rightarrow> openai_call) \<Rightarrow> hospital_rag_request \<Rightarrow> hospital_rag_response" where
  "get_hospitals_from_rag json_loads client request =
     (let found = extract_hospital_locations_from_rag json_loads client
                    (req_location request) (req_injury_type request)
      in \<lparr> success = True,
           hospitals = slice_to found (max_results request),
           resp_location = req_location request,
           resp_injury_type = req_injury_type request,
           total_found = length found \<rparr>)"

subsection \<open>Vocabulary for the properties of the adapter\<close>

text \<open>
  A leading substring of a text is a \<^const>\<open>prefix\<close> of it. It ends in a facility
  suffix when one of the four suffixes, compared without case, is a
  \<^const>\<open>suffix\<close> of it. The shortest such leading substring is found by trying the
  lengths in increasing order. \<open>split_lines\<close> cuts a text at its line feeds.
\<close>

definition ends_with_facility_suffix :: "string \<Rightarrow> bool" where
  "ends_with_facility_suffix p =
     list_ex (\<lambda>a. suffix (str_lower a) (str_lower p)) facility_suffixes"

definition shortest_suffixed_prefix :: "string \<Rightarrow> string option" where
  "shortest_suffixed_prefix l =
     map_option (\<lambda>n. take n l)
       (find (\<lambda>n. ends_with_facility_suffix (take n l)) [0..<Suc (length l)])"

fun split_lines :: "string \<Rightarrow> string list" where
  "split_lines [] = [[]]"
| "split_lines (c # cs) =
     (if c = CHR 0x0A then [] # split_lines cs
      else (case split_lines cs of [] \<Rightarrow> [[c]] | l # ls \<Rightarrow> (c # l) # ls))"

text \<open>The first line of the text in which a facility suffix occurs, cut after the
  first occurrence, without the white space around it; the placeholder when there is
  none.\<close>

definition first_match_name :: "string \<Rightarrow> string" where
  "first_match_name content_text =
     (case List.find (\<lambda>l. shortest_suffixed_prefix l \<noteq> None) (split_lines content_text) of
        None \<Rightarrow> ''Unknown Hospital''
      | Some l \<Rightarrow>
          (case shortest_suffixed_prefix l of
             Some p \<Rightarrow> str_strip p
           | None \<Rightarrow> ''Unknown Hospital''))"

text \<open>What the client's reply decodes to: nothing when the call raises (a time-out
  included) or when the text, white space removed at both ends, is not JSON.\<close>

definition decoded_reply ::
  "(string \<Rightarrow> json option) \<Rightarrow> openai_call \<Rightarrow> string \<Rightarrow> string \<Rightarrow> string \<Rightarrow> json option" where
  "decoded_reply json_loads create hospital_name addr location =
     (case create hospital_name addr location of
        ApiError \<Rightarrow> None
      | Reply reply \<Rightarrow> json_loads (str_strip reply))"

text \<open>A decoded value offers coordinates when both names \<open>lat\<close> and \<open>lng\<close> are
  found in it: as keys of an object, as elements of an array, or inside a string. A
  number, a boolean and \<open>null\<close> offer none.\<close>

fun offers_lat_lng :: "json \<Rightarrow> bool" where
  "offers_lat_lng (JObj kvs) = (''lat'' \<in> fst ` set kvs \<and> ''lng'' \<in> fst ` set kvs)"
| "offers_lat_lng (JArr xs) = (JStr ''lat'' \<in> set xs \<and> JStr ''lng'' \<in> set xs)"
| "offers_lat_lng (JStr s) = (sublist ''lat'' s \<and> sublist ''lng'' s)"
| "offers_lat_lng JNull = False"
| "offers_lat_lng (JBool b) = False"
| "offers_lat_lng (JNum x) = False"

text \<open>Coordinate resolution fails for an entry when the client raises (a time-out
  included), when its text does not decode as JSON, or when what it decodes to offers
  no coordinates (\<open>{}\<close>, \<open>null\<close>, \<open>5\<close>, an object without one of the keys).\<close>

definition resolution_fails ::
  "(string \<Rightarrow> json option) \<Rightarrow> openai_call \<Rightarrow> string \<Rightarrow> string \<Rightarrow> string \<Rightarrow> bool" where
  "resolution_fails json_loads create hospital_name addr location =
     (case decoded_reply json_loads create hospital_name addr location of
        None \<Rightarrow> True
      | Some v \<Rightarrow> \<not> offers_lat_lng v)"

text \<open>Surroundings for the instances below: a client whose every call raises, and a
  \<open>json.loads\<close> that rejects every text.\<close>

definition openai_down :: "nat \<Rightarrow> openai_call" where
  "openai_down n hospital_name addr location = ApiError"

definition json_loads_rejects :: "string \<Rightarrow> json option" where
  "json_loads_rejects s = None"

text \<open>And a client that raises at its first call, answers \<open>{}\<close> between two no-break
  spaces at its second and the text \<open>{"lat": 1, "lng": 2}\<close> between a no-break space
  and a line feed afterwards, with a \<open>json.loads\<close> that decodes these two texts and
  rejects the rest.\<close>

definition lat_lng_reply :: string where
  "lat_lng_reply =
     ''{'' @ [CHR 0x22] @ ''lat'' @ [CHR 0x22] @ '': 1, '' @ [CHR 0x22] @ ''lng'' @ [CHR 0x22] @ '': 2}''"

definition openai_scripted :: "nat \<Rightarrow> openai_call" where
  "openai_scripted n hospital_name addr location =
     (if n = 0 then ApiError
      else if n = 1 then Reply ([CHR 0xA0] @ ''{}'' @ [CHR 0xA0])
      else Reply ([CHR 0xA0] @ lat_lng_reply @ [CHR 0x0A]))"

definition json_loads_small :: "string \<Rightarrow> json option" where
  "json_loads_small s =
     (if s = ''{}'' then Some (JObj [])
      else if s = lat_lng_reply then Some (JObj [(''lat'', JNum 1), (''lng'', JNum 2)])
      else None)"

section \<open>The hospital route of the frontend\<close>

text \<open>
  \<open>extractHospitalDataFromRAG\<close> reads the decoded body of the backend's response.
  A property read yields \<open>undefined\<close> when the property is missing; on \<open>null\<close> it
  throws a \<open>TypeError\<close>. \<open>js_get\<close> is the read on a value that is not \<open>null\<close>,
  for the property names this function reads (none of them is a built-in property of
  a string, a number, a boolean or an array); of a repeated key of an object the last
  one counts.
\<close>

datatype jsval = Undefined | Val json

datatype js_error = JsTypeError

fun js_truthy_json :: "json \<Rightarrow> bool" where
  "js_truthy_json JNull = False"
| "js_truthy_json (JBool b) = b"
| "js_truthy_json (JNum x) = (x \<noteq> 0)"
| "js_truthy_json (JStr s) = (s \<noteq> [])"
| "js_truthy_json (JArr xs) = True"
| "js_truthy_json (JObj kvs) = True"

fun js_truthy :: "jsval \<Rightarrow> bool" where
  "js_truthy Undefined = False"
| "js_truthy (Val v) = js_truthy_json v"

text \<open>\<open>a || b\<close>\<close>

definition js_or :: "jsval \<Rightarrow> jsval \<Rightarrow> jsval" where
  "js_or a b = (if js_truthy a then a else b)"

fun js_get :: "json \<Rightarrow> string \<Rightarrow> jsval" where
  "js_get (JObj kvs) k = (case map_of (rev kvs) k of Some v \<Rightarrow> Val v | None \<Rightarrow> Undefined)"
| "js_get v k = Undefined"

text \<open>The interface \<open>Hospital\<close>. TypeScript's types are erased, so a field holds
  whatever value the expression yields. A primed name is the source's name without
  the prime.\<close>

record hospital =
  id' :: jsval
  name' :: jsval
  address' :: jsval
  lat :: jsval
  lng :: jsval
  phone' :: jsval
  services' :: jsval
  rating' :: jsval
  emergency' :: jsval
  urgentCare :: jsval

text \<open>The object literal. \<open>fresh\<close> is what
  \<open>Math.random().toString(36).substr(2, 9)\<close> yields; it is used only when the record
  has no truthy \<open>id\<close>.\<close>

definition make_hospital :: "json \<Rightarrow> string \<Rightarrow> hospital" where
  "make_hospital ragHospital fresh =
     \<lparr> id' = js_or (js_get ragHospital ''id'') (Val (JStr (''rag-'' @ fresh))),
       name' = js_or (js_get ragHospital ''name'') (Val (JStr ''Unknown Hospital'')),
       address' = js_or (js_get ragHospital ''address'') (Val (JStr ''Address not available'')),
       lat = js_get ragHospital ''lat'',
       lng = js_get ragHospital ''lng'',
       phone' = js_get ragHospital ''phone'',
       services' = js_or (js_get ragHospital ''services'') (Val (JArr [JStr ''General Medicine''])),
       rating' = js_or (js_get ragHospital ''rating'') (Val (JNum 4.0)),
       emergency' = js_or (js_get ragHospital ''emergency'') (Val (JBool False)),
       urgentCare = js_or (js_get ragHospital ''urgentCare'') (Val (JBool False)) \<rparr>"

text \<open>The \<open>for ... of\<close> loop. \<open>rnd n\<close> is the result of the \<open>n\<close>-th call of
  \<open>Math.random\<close>; \<open>acc\<close> is the array \<open>hospitals\<close> as built so far.\<close>

fun extract_loop ::
  "(nat \<Rightarrow> string) \<Rightarrow> nat \<Rightarrow> json list \<Rightarrow> hospital list \<Rightarrow> js_error + hospital list" where
  "extract_loop rnd n [] acc = Inr acc"
| "extract_loop rnd n (ragHospital # rest) acc =
     (if ragHospital = JNull then Inl JsTypeError
      else if js_truthy (js_get ragHospital ''lat'') \<and> js_truthy (js_get ragHospital ''lng'')
      then extract_loop rnd (if js_truthy (js_get ragHospital ''id'') then n else Suc n) rest
             (acc @ [make_hospital ragHospital (rnd n)])
      else extract_loop rnd n rest acc)"

text \<open>An array is iterated by its elements and a string by its characters; any
  other truthy value of \<open>hospitals\<close> is not iterable.\<close>

definition extractHospitalDataFromRAG :: "(nat \<Rightarrow> string) \<Rightarrow> json \<Rightarrow> js_error + hospital list" where
  "extractHospitalDataFromRAG rnd ragResponse =
     (if \<not> js_truthy_json ragResponse \<or> \<not> js_truthy (js_get ragResponse ''hospitals'')
      then Inr []
      else (case js_get ragResponse ''hospitals'' of
              Val (JArr xs) \<Rightarrow> extract_loop rnd 0 xs []
            | Val (JStr s) \<Rightarrow> extract_loop rnd 0 (map (\<lambda>c. JStr [c]) s) []
            | _ \<Rightarrow> Inl JsTypeError))"

text \<open>A record has coordinates when its \<open>lat\<close> and \<open>lng\<close> are both present and
  truthy.\<close>

definition has_coordinates :: "json \<Rightarrow> bool" where
  "has_coordinates r = (js_truthy (js_get r ''lat'') \<and> js_truthy (js_get r ''lng''))"

section \<open>The retrieval core\<close>

text \<open>
  The Document Store, the Relevance Scorer, the Ranking Engine and the Retrieval
  Service are the module \<open>lib/retrieval\<close> that \<open>app/api/multi-agent/route.ts\<close>
  imports (\<open>new RetrievalService()\<close>, \<open>searchDocuments\<close>, \<open>retrieveContext\<close>). The
  module is not among the sources, so this section follows the specification,
  sections 3 and 4.1 to 4.4. The specification gives neither the corpus nor the
  curated term lists nor the category of a document; they are parameters.
\<close>

text \<open>Modelled from the spec: the entity Document of section 3 (the module that
  declares it is missing).\<close>

record document =
  doc_id :: string
  title :: string
  body :: string
  source :: string

text \<open>Modelled from the spec: the entity ScoredDocument of section 3 (missing with the
  retrieval module).\<close>

record scored_document =
  doc :: document
  relevancy :: real
  similarity :: real

text \<open>Modelled from the spec: the entity RetrievalResult of section 3 (missing with the
  retrieval module).\<close>

record retrieval_result =
  documentsUsed :: nat
  enhanced :: bool
  documents :: "scored_document list"

text \<open>Modelled from the spec: the intent categories of section 4.2 step 3 and section 9
  (emergency, facility, allergy, general; "none" is \<open>None\<close>). The scorer that
  classifies is missing.\<close>

datatype intent = Emergency | Facility | Allergy | General

text \<open>Modelled from the spec: the calibrated constants of section 4.2 step 3 (0.95
  emergency, 0.88 facility, 0.92 allergy, 0.78 general); the scorer that holds them is
  missing.\<close>

fun calibrated_score :: "intent \<Rightarrow> real" where
  "calibrated_score Emergency = 0.95"
| "calibrated_score Facility = 0.88"
| "calibrated_score Allergy = 0.92"
| "calibrated_score General = 0.78"

text \<open>Modelled from the spec: what section 4.2 step 3 leaves open, as parameters of the
  missing scorer: the curated high-priority terms of each category, and the category
  of each document (if it has one).\<close>

record calibration =
  priority_terms :: "intent \<Rightarrow> string list"
  category_of :: "document \<Rightarrow> intent option"

text \<open>Modelled from the spec: section 4.2 step 1 of the missing scorer, "tokenize on
  whitespace/punctuation": the separators are the white space of the strings above
  and ASCII punctuation.\<close>

definition is_separator :: "char \<Rightarrow> bool" where
  "is_separator c =
     (is_space c \<or>
      (let n = (of_char c :: nat)
       in (33 \<le> n \<and> n \<le> 47) \<or> (58 \<le> n \<and> n \<le> 64) \<or> (91 \<le> n \<and> n \<le> 96) \<or> (123 \<le> n \<and> n \<le> 126)))"

text \<open>Modelled from the spec: section 4.2 step 1 of the missing scorer, "Normalize ...
  to lower case; tokenize ... into a set of words" (a list without repetitions).\<close>

definition tokenize :: "string \<Rightarrow> string list" where
  "tokenize s = remdups (split_on is_separator [] (str_lower s))"

text \<open>Modelled from the spec: section 4.2 step 2 of the missing scorer, the keyword
  overlap: the number of query tokens that are substrings of the lower-cased body,
  divided by the number of query tokens (0 for a query without tokens).\<close>

definition overlap_ratio :: "string \<Rightarrow> document \<Rightarrow> real" where
  "overlap_ratio query d =
     (let ts = tokenize query
      in if ts = [] then 0
         else real (length (filter (\<lambda>t. sublist t (str_lower (body d))) ts)) / real (length ts))"

text \<open>Modelled from the spec: section 4.2 step 5 of the missing scorer, the fraction of
  document tokens that also occur in the query token set (0 for a body without
  tokens).\<close>

definition coverage :: "string \<Rightarrow> document \<Rightarrow> real" where
  "coverage query d =
     (let ds = tokenize (body d)
      in if ds = [] then 0
         else real (length (filter (\<lambda>t. t \<in> set (tokenize query)) ds)) / real (length ds))"

text \<open>Modelled from the spec: section 4.2 step 3 of the missing scorer, "the query
  contains any term from a curated high-priority list associated with the document's
  category".\<close>

definition query_matches :: "calibration \<Rightarrow> string \<Rightarrow> intent \<Rightarrow> bool" where
  "query_matches cal query c = list_ex (\<lambda>t. sublist t (str_lower query)) (priority_terms cal c)"

text \<open>Modelled from the spec: section 4.2 steps 4 and 5 of the missing scorer, the clamp
  to [0,1].\<close>

definition clamp01 :: "real \<Rightarrow> real" where
  "clamp01 x = max 0 (min 1 x)"

text \<open>Modelled from the spec: the contract \<open>score\<close> of section 4.2 (the scorer is
  missing). The edge cases come first (a body that is empty scores 0 and 0, a query
  without tokens has relevancy 0); then the calibrated score when the query matches
  the document's category, and the overlap ratio otherwise; both results clamped. The
  result is the pair of relevancy and similarity.\<close>

definition score :: "calibration \<Rightarrow> string \<Rightarrow> document \<Rightarrow> real \<times> real" where
  "score cal query d =
     (if body d = [] then (0, 0)
      else if tokenize query = [] then (0, clamp01 (coverage query d))
      else (clamp01 (case category_of cal d of
                       Some c \<Rightarrow> if query_matches cal query c then calibrated_score c
                                 else overlap_ratio query d
                     | None \<Rightarrow> overlap_ratio query d),
            clamp01 (coverage query d)))"

text \<open>Modelled from the spec: the scoring of one document inside the missing Ranking
  Engine (section 4.3, "score every document via 4.2").\<close>

definition scored :: "calibration \<Rightarrow> string \<Rightarrow> document \<Rightarrow> scored_document" where
  "scored cal query d =
     \<lparr> doc = d, relevancy = fst (score cal query d), similarity = snd (score cal query d) \<rparr>"

text \<open>Modelled from the spec: the contract \<open>rank\<close> of section 4.3 (the Ranking Engine is
  missing): score every document, sort descending by relevancy with a stable sort
  (\<^const>\<open>sort_key\<close> is insertion sort, which keeps the order of equal keys), truncate
  to \<open>k\<close>.\<close>

definition rank :: "calibration \<Rightarrow> string \<Rightarrow> document list \<Rightarrow> int \<Rightarrow> scored_document list" where
  "rank cal query ds k =
     take (nat k) (sort_key (\<lambda>s. - relevancy s) (map (scored cal query) ds))"

text \<open>Modelled from the spec: "k defaults to 3" (section 4.3).\<close>

definition default_k :: int where
  "default_k = 3"

text \<open>Modelled from the spec: the error CorpusUnavailable of section 7 (the Document
  Store is missing); a read of the store yields it or the corpus.\<close>

datatype retrieval_error = CorpusUnavailable

text \<open>Modelled from the spec: the contract \<open>retrieveContext\<close> of section 4.4 with its
  failure handling (the Retrieval Service is missing). \<open>store\<close> is the outcome of
  reading the Document Store. The flag \<open>enhanced\<close> is set by the caller, so the
  service returns it unset.\<close>

definition retrieveContext ::
  "calibration \<Rightarrow> retrieval_error + document list \<Rightarrow> string \<Rightarrow> retrieval_result" where
  "retrieveContext cal store query =
     (case store of
        Inl CorpusUnavailable \<Rightarrow> \<lparr> documentsUsed = 0, enhanced = False, documents = [] \<rparr>
      | Inr corpus \<Rightarrow>
          (let ranked = rank cal query corpus default_k
           in \<lparr> documentsUsed = length ranked, enhanced = False, documents = ranked \<rparr>))"

section \<open>The guardrail\<close>

lemma find_None_set: "find P xs = None \<longleftrightarrow> (\<forall>x\<in>set xs. \<not> P x)"
  by (induction xs) auto

lemma find_Some_set: "find P xs = Some y \<Longrightarrow> y \<in> set xs \<and> P y"
  by (induction xs) (auto split: if_splits)

lemma split_on_all_separators:
  "\<forall>c\<in>set s. sep c \<Longrightarrow> split_on sep [] s = []"
  by (induction s) auto

lemma lower_char_space: "is_space c \<Longrightarrow> lower_char c = c"
proof -
  have "\<forall>c\<in>set [CHR 0x09, CHR 0x0A, CHR 0x0B, CHR 0x0C, CHR 0x0D,
                   CHR 0x1C, CHR 0x1D, CHR 0x1E, CHR 0x1F, CHR 0x20,
                   CHR 0x85, CHR 0xA0]. lower_char c = c"
    by (simp add: lower_char_def upper_letters_def lower_letters_def)
  then show "is_space c \<Longrightarrow> lower_char c = c"
    unfolding is_space_def by blast
qed

lemma blank_lower: "\<forall>c\<in>set q. is_space c \<Longrightarrow> \<forall>c\<in>set (str_lower q). is_space c"
  by (auto simp: str_lower_def lower_char_space)

text \<open>
  C9. The guardrail raises, and what it raises is a \<open>ValueError\<close>, exactly when the
  lower-cased query contains one of the fifteen indicator phrases, or contains no
  healthcare keyword and has more than three words separated by white space. In the
  first case the message names an indicator that occurs, in the second it is the
  request to rephrase. A query the guardrail accepts is returned unchanged, and every
  query of at most three words without an indicator phrase is accepted.
\<close>

theorem validate_healthcare_query_raises_iff:
  "length non_healthcare_indicators = 15 \<and>
   ((\<exists>msg. validate_healthcare_query q = Inl (ValueError msg)) \<longleftrightarrow>
      (\<exists>i\<in>set non_healthcare_indicators. sublist i (str_lower q)) \<or>
      ((\<forall>k\<in>set healthcare_keywords. \<not> sublist k (str_lower q)) \<and> 3 < length (str_split q))) \<and>
   (\<forall>e. validate_healthcare_query q = Inl e \<longrightarrow> (\<exists>msg. e = ValueError msg)) \<and>
   ((\<exists>i\<in>set non_healthcare_indicators. sublist i (str_lower q)) \<longrightarrow>
      (\<exists>i\<in>set non_healthcare_indicators. sublist i (str_lower q) \<and>
         validate_healthcare_query q = Inl (ValueError (out_of_scope_alert i)))) \<and>
   ((\<forall>i\<in>set non_healthcare_indicators. \<not> sublist i (str_lower q)) \<and>
    (\<forall>k\<in>set healthcare_keywords. \<not> sublist k (str_lower q)) \<and> 3 < length (str_split q) \<longrightarrow>
      validate_healthcare_query q = Inl (ValueError rephrase_alert)) \<and>
   (\<forall>r. validate_healthcare_query q = Inr r \<longrightarrow> r = q) \<and>
   ((\<forall>i\<in>set non_healthcare_indicators. \<not> sublist i (str_lower q)) \<and> length (str_split q) \<le> 3
      \<longrightarrow> validate_healthcare_query q = Inr q)"
proof -
  have n15: "length non_healthcare_indicators = 15"
    by (simp add: non_healthcare_indicators_def)
  show ?thesis
  proof (cases "find (\<lambda>i. sublist i (str_lower q)) non_healthcare_indicators")
    case None
    then have no_ind: "\<forall>i\<in>set non_healthcare_indicators. \<not> sublist i (str_lower q)"
      by (simp add: find_None_set)
    from None no_ind n15 show ?thesis
      by (auto simp: validate_healthcare_query_def Let_def list_ex_iff)
  next
    case (Some i)
    then have i: "i \<in> set non_healthcare_indicators" "sublist i (str_lower q)"
      using find_Some_set by fastforce+
    have run: "validate_healthcare_query q = Inl (ValueError (out_of_scope_alert i))"
      using Some by (simp add: validate_healthcare_query_def Let_def)
    from i run n15 show ?thesis by auto
  qed
qed

text \<open>Instances: three words; six words without a keyword; four words separated by
  no-break spaces and a next-line character; an indicator phrase in capitals.\<close>

theorem validate_healthcare_query_raises_iff_witness:
  "validate_healthcare_query ''Pizza toppings please'' = Inr ''Pizza toppings please'' \<and>
   validate_healthcare_query ''what is the latest football score''
     = Inl (ValueError rephrase_alert) \<and>
   validate_healthcare_query [CHR ''a'', CHR 0xA0, CHR ''b'', CHR 0xA0, CHR ''c'', CHR 0x85, CHR ''d'']
     = Inl (ValueError rephrase_alert) \<and>
   (\<exists>msg. validate_healthcare_query ''Hospital NEWS today'' = Inl (ValueError msg))"
proof -
  let ?nb = "[CHR ''a'', CHR 0xA0, CHR ''b'', CHR 0xA0, CHR ''c'', CHR 0x85, CHR ''d'']"
  have a: "\<forall>i\<in>set non_healthcare_indicators. \<not> sublist i (str_lower ''Pizza toppings please'')"
    by code_simp
  have b: "length (str_split ''Pizza toppings please'') \<le> 3"
    by code_simp
  have c: "(\<forall>i\<in>set non_healthcare_indicators.
              \<not> sublist i (str_lower ''what is the latest football score'')) \<and>
           (\<forall>k\<in>set healthcare_keywords.
              \<not> sublist k (str_lower ''what is the latest football score'')) \<and>
           3 < length (str_split ''what is the latest football score'')"
    by code_simp
  have c': "(\<forall>i\<in>set non_healthcare_indicators. \<not> sublist i (str_lower ?nb)) \<and>
           (\<forall>k\<in>set healthcare_keywords. \<not> sublist k (str_lower ?nb)) \<and>
           3 < length (str_split ?nb)"
    by code_simp
  have d: "\<exists>i\<in>set non_healthcare_indicators. sublist i (str_lower ''Hospital NEWS today'')"
    by code_simp
  from a b validate_healthcare_query_raises_iff [of "''Pizza toppings please''"]
  have 1: "validate_healthcare_query ''Pizza toppings please'' = Inr ''Pizza toppings please''"
    by blast
  from c validate_healthcare_query_raises_iff [of "''what is the latest football score''"]
  have 2: "validate_healthcare_query ''what is the latest football score''
             = Inl (ValueError rephrase_alert)"
    by blast
  from c' validate_healthcare_query_raises_iff [of ?nb]
  have 3: "validate_healthcare_query ?nb = Inl (ValueError rephrase_alert)"
    by blast
  from d validate_healthcare_query_raises_iff [of "''Hospital NEWS today''"]
  have 4: "\<exists>msg. validate_healthcare_query ''Hospital NEWS today'' = Inl (ValueError msg)"
    by blast
  from 1 2 3 4 show ?thesis by blast
qed

text \<open>A query of white space only passes the guardrail unchanged.\<close>

lemma sublist_set: "sublist xs ys \<Longrightarrow> set xs \<subseteq> set ys"
  by (auto simp: sublist_def)

lemma indicators_have_letters:
  "i \<in> set non_healthcare_indicators \<Longrightarrow> \<exists>c\<in>set i. \<not> is_space c"
proof -
  have "\<forall>i\<in>set non_healthcare_indicators. \<exists>c\<in>set i. \<not> is_space c"
    by code_simp
  then show "i \<in> set non_healthcare_indicators \<Longrightarrow> \<exists>c\<in>set i. \<not> is_space c" by blast
qed

lemma validate_healthcare_query_blank:
  assumes "\<forall>c\<in>set q. is_space c"
  shows "validate_healthcare_query q = Inr q"
proof -
  have low: "\<forall>c\<in>set (str_lower q). is_space c" using assms by (rule blank_lower)
  have "\<not> sublist i (str_lower q)" if "i \<in> set non_healthcare_indicators" for i
    using indicators_have_letters [OF that] low sublist_set [of i "str_lower q"] by blast
  then have none: "find (\<lambda>i. sublist i (str_lower q)) non_healthcare_indicators = None"
    by (simp add: find_None_set)
  have "str_split q = []" using assms by (simp add: str_split_def split_on_all_separators)
  with none show ?thesis by (simp add: validate_healthcare_query_def Let_def)
qed

section \<open>The name pattern finds the first match\<close>

lemma lower_char_LF: "lower_char c = CHR 0x0A \<longleftrightarrow> c = CHR 0x0A"
  by (auto simp: lower_char_def upper_letters_def lower_letters_def split: if_splits)

lemma suffix_nonempty: "a \<in> set facility_suffixes \<Longrightarrow> str_lower a \<noteq> []"
  by (auto simp: facility_suffixes_def str_lower_def)

lemma suffix_no_LF: "a \<in> set facility_suffixes \<Longrightarrow> CHR 0x0A \<notin> set (str_lower a)"
  by (auto simp: facility_suffixes_def str_lower_def lower_char_def upper_letters_def
        lower_letters_def)

lemma suffixes_not_nested:
  "a \<in> set facility_suffixes \<Longrightarrow> a0 \<in> set facility_suffixes \<Longrightarrow>
     \<not> sublist (str_lower a) (butlast (str_lower a0))"
proof -
  have "\<forall>a\<in>set facility_suffixes. \<forall>a0\<in>set facility_suffixes.
          \<not> sublist (str_lower a) (butlast (str_lower a0))"
    by code_simp
  then show "a \<in> set facility_suffixes \<Longrightarrow> a0 \<in> set facility_suffixes \<Longrightarrow>
     \<not> sublist (str_lower a) (butlast (str_lower a0))" by blast
qed

lemma ends_Nil: "\<not> ends_with_facility_suffix []"
  by (simp add: ends_with_facility_suffix_def facility_suffixes_def str_lower_def)

lemma ends_iff:
  "ends_with_facility_suffix p \<longleftrightarrow> (\<exists>a\<in>set facility_suffixes. suffix (str_lower a) (str_lower p))"
  by (simp add: ends_with_facility_suffix_def list_ex_iff)

lemma match_alternation_None:
  "match_alternation s = None \<longleftrightarrow> (\<forall>a\<in>set facility_suffixes. \<not> matches_here a s)"
  by (simp add: match_alternation_def find_None_set)

lemma match_alternation_Some:
  assumes "match_alternation s = Some m"
  shows "\<exists>a\<in>set facility_suffixes. matches_here a s \<and> m = take (length a) s"
proof -
  from assms obtain a where "find (\<lambda>a. matches_here a s) facility_suffixes = Some a"
    and m: "m = take (length a) s"
    by (auto simp: match_alternation_def)
  then have "a \<in> set facility_suffixes \<and> matches_here a s"
    using find_Some_set by fastforce
  with m show ?thesis by blast
qed

lemma match_alternation_Nil: "match_alternation [] = None"
  by (simp add: match_alternation_def matches_here_def facility_suffixes_def str_lower_def)

lemma str_lower_take: "str_lower (take n s) = take n (str_lower s)"
  by (simp add: str_lower_def take_map)

lemma str_lower_length: "length (str_lower s) = length s"
  by (simp add: str_lower_def)

lemma str_lower_Cons: "str_lower (c # s) = lower_char c # str_lower s"
  by (simp add: str_lower_def)

lemma prefix_str_lower: "prefix p s \<Longrightarrow> prefix (str_lower p) (str_lower s)"
  by (auto simp: prefix_def str_lower_def)

lemma strict_prefix_butlast: "strict_prefix xs ys \<Longrightarrow> prefix xs (butlast ys)"
  by (auto simp: strict_prefix_def prefix_def butlast_append)

text \<open>A match at the start: the matched text ends in the suffix, and no shorter
  leading substring does.\<close>

lemma matched_take:
  assumes "matches_here a s"
  shows "str_lower (take (length a) s) = str_lower a"
proof -
  from assms have "prefix (str_lower a) (str_lower s)" by (simp add: matches_here_def)
  then have "take (length (str_lower a)) (str_lower s) = str_lower a"
    by (metis append_eq_conv_conj prefix_def)
  then show ?thesis by (simp add: str_lower_take str_lower_length)
qed

lemma matched_ends:
  assumes "a \<in> set facility_suffixes" "matches_here a s"
  shows "ends_with_facility_suffix (take (length a) s)"
  using assms matched_take [of a s] by (auto simp: ends_iff)

lemma matched_shortest:
  assumes a0: "a0 \<in> set facility_suffixes" "matches_here a0 s"
    and q: "prefix q s" "ends_with_facility_suffix q"
  shows "length a0 \<le> length q"
proof (rule ccontr)
  assume "\<not> length a0 \<le> length q"
  then have short: "length q < length a0" by simp
  from q(2) obtain a where a: "a \<in> set facility_suffixes" "suffix (str_lower a) (str_lower q)"
    by (auto simp: ends_iff)
  have pq: "prefix (str_lower q) (str_lower s)" using q(1) by (rule prefix_str_lower)
  have pa: "prefix (str_lower a0) (str_lower s)" using a0(2) by (simp add: matches_here_def)
  from pq pa short have "prefix (str_lower q) (str_lower a0)"
    by (metis less_imp_le_nat prefix_length_prefix str_lower_length)
  moreover from short have "str_lower q \<noteq> str_lower a0"
    by (metis nat_neq_iff str_lower_length)
  ultimately have "strict_prefix (str_lower q) (str_lower a0)" by (simp add: strict_prefix_def)
  then have "prefix (str_lower q) (butlast (str_lower a0))"
    by (rule strict_prefix_butlast)
  with a(2) have "sublist (str_lower a) (butlast (str_lower a0))"
    by (auto simp: sublist_altdef)
  with suffixes_not_nested [OF a(1) a0(1)] show False by simp
qed

lemma ends_Cons:
  assumes "ends_with_facility_suffix (c # q)" "\<forall>a\<in>set facility_suffixes. \<not> matches_here a (c # s)"
    "prefix q s"
  shows "ends_with_facility_suffix q"
proof -
  from assms(1) obtain a where a: "a \<in> set facility_suffixes"
    "suffix (str_lower a) (lower_char c # str_lower q)"
    by (auto simp: ends_iff str_lower_Cons)
  from a(2) have "str_lower a = lower_char c # str_lower q \<or> suffix (str_lower a) (str_lower q)"
    by (simp add: suffix_Cons)
  then show ?thesis
  proof
    assume "str_lower a = lower_char c # str_lower q"
    then have "str_lower a = str_lower (c # q)" by (simp add: str_lower_Cons)
    moreover have "prefix (str_lower (c # q)) (str_lower (c # s))"
      using assms(3) by (intro prefix_str_lower) simp
    ultimately have "matches_here a (c # s)" by (simp add: matches_here_def)
    with assms(2) a(1) show ?thesis by blast
  next
    assume "suffix (str_lower a) (str_lower q)"
    with a(1) show ?thesis by (auto simp: ends_iff)
  qed
qed

lemma ends_ConsI: "ends_with_facility_suffix q \<Longrightarrow> ends_with_facility_suffix (c # q)"
  by (auto simp: ends_iff str_lower_Cons suffix_Cons)

lemma match_lazy_shortest:
  assumes "CHR 0x0A \<notin> set l"
  shows "(match_lazy l = None \<longrightarrow> (\<forall>q. prefix q l \<longrightarrow> \<not> ends_with_facility_suffix q)) \<and>
         (\<forall>m. match_lazy l = Some m \<longrightarrow>
            prefix m l \<and> ends_with_facility_suffix m \<and>
            (\<forall>q. prefix q l \<and> ends_with_facility_suffix q \<longrightarrow> length m \<le> length q))"
  using assms
proof (induction l)
  case Nil
  show ?case by (simp add: match_alternation_Nil ends_Nil)
next
  case (Cons c cs)
  then have c: "c \<noteq> CHR 0x0A" and cs: "CHR 0x0A \<notin> set cs" by auto
  note IH = Cons.IH [OF cs]
  show ?case
  proof (cases "match_alternation (c # cs)")
    case (Some m)
    then obtain a where a: "a \<in> set facility_suffixes" "matches_here a (c # cs)"
      "m = take (length a) (c # cs)"
      using match_alternation_Some by blast
    have "prefix m (c # cs)" using a(3) by (simp add: take_is_prefix)
    moreover have "ends_with_facility_suffix m" using a by (simp add: matched_ends)
    moreover have "\<forall>q. prefix q (c # cs) \<and> ends_with_facility_suffix q \<longrightarrow> length m \<le> length q"
    proof (intro allI impI)
      fix q assume q: "prefix q (c # cs) \<and> ends_with_facility_suffix q"
      then have "length a \<le> length q" using matched_shortest [OF a(1,2)] by blast
      then show "length m \<le> length q" using a(3) by simp
    qed
    ultimately show ?thesis using Some by simp
  next
    case None
    then have nomatch: "\<forall>a\<in>set facility_suffixes. \<not> matches_here a (c # cs)"
      by (simp add: match_alternation_None)
    have step: "match_lazy (c # cs) = map_option (\<lambda>m. c # m) (match_lazy cs)"
      using None c by simp
    have down: "ends_with_facility_suffix q'" if "prefix q (c # cs)" "ends_with_facility_suffix q" "q = c # q'"
      for q q'
      using that nomatch ends_Cons [of c q' cs] by simp
    show ?thesis
    proof (cases "match_lazy cs")
      case None
      with IH have none: "\<forall>q. prefix q cs \<longrightarrow> \<not> ends_with_facility_suffix q" by simp
      have "\<not> ends_with_facility_suffix q" if "prefix q (c # cs)" for q
      proof (cases q)
        case Nil
        then show ?thesis by (simp add: ends_Nil)
      next
        case (Cons d q')
        with that have "d = c" "prefix q' cs" by simp_all
        with none down [OF that _ ] Cons show ?thesis by blast
      qed
      with None step show ?thesis by simp
    next
      case (Some m')
      with IH have m': "prefix m' cs" "ends_with_facility_suffix m'"
        "\<forall>q. prefix q cs \<and> ends_with_facility_suffix q \<longrightarrow> length m' \<le> length q"
        by simp_all
      have "length (c # m') \<le> length q" if "prefix q (c # cs)" "ends_with_facility_suffix q" for q
      proof (cases q)
        case Nil
        with that show ?thesis by (simp add: ends_Nil)
      next
        case (Cons d q')
        with that have "d = c" "prefix q' cs" by simp_all
        moreover from this Cons down [OF that] have "ends_with_facility_suffix q'" by blast
        ultimately show ?thesis using m'(3) Cons by auto
      qed
      with m' Some step show ?thesis by (simp add: ends_ConsI)
    qed
  qed
qed

text \<open>The executable search for the shortest leading substring agrees.\<close>

lemma find_upt_least:
  "find P [0..<k] = Some n \<longleftrightarrow> n < k \<and> P n \<and> (\<forall>j<n. \<not> P j)"
  by (auto simp: find_Some_iff)

lemma find_upt_None: "find P [0..<k] = None \<longleftrightarrow> (\<forall>j<k. \<not> P j)"
  by (auto simp: find_None_set)

lemma match_lazy_eq_shortest:
  assumes "CHR 0x0A \<notin> set l"
  shows "match_lazy l = shortest_suffixed_prefix l"
proof (cases "match_lazy l")
  case None
  with match_lazy_shortest [OF assms]
  have "\<forall>q. prefix q l \<longrightarrow> \<not> ends_with_facility_suffix q" by simp
  then have "\<forall>j<Suc (length l). \<not> ends_with_facility_suffix (take j l)"
    by (simp add: take_is_prefix)
  then have "find (\<lambda>n. ends_with_facility_suffix (take n l)) [0..<Suc (length l)] = None"
    by (simp only: find_upt_None)
  with None show ?thesis by (simp add: shortest_suffixed_prefix_def)
next
  case (Some m)
  with match_lazy_shortest [OF assms]
  have m: "prefix m l" "ends_with_facility_suffix m"
    "\<forall>q. prefix q l \<and> ends_with_facility_suffix q \<longrightarrow> length m \<le> length q"
    by simp_all
  from m(1) have tk: "take (length m) l = m"
    by (metis append_eq_conv_conj prefix_def)
  from m(1) have len: "length m < Suc (length l)"
    by (simp add: prefix_length_le less_Suc_eq_le)
  have "\<not> ends_with_facility_suffix (take j l)" if "j < length m" for j
  proof
    assume "ends_with_facility_suffix (take j l)"
    with m(3) take_is_prefix [of j l] have "length m \<le> length (take j l)" by blast
    with that show False by simp
  qed
  with tk m(2) len
  have "find (\<lambda>n. ends_with_facility_suffix (take n l)) [0..<Suc (length l)] = Some (length m)"
    by (simp only: find_upt_least) simp
  with Some tk show ?thesis by (simp add: shortest_suffixed_prefix_def)
qed

lemma prefix_before:
  assumes "x \<notin> set p"
  shows "prefix p (u @ x # v) \<longleftrightarrow> prefix p u"
proof
  assume "prefix p (u @ x # v)"
  then consider "prefix p u" | us where "p = u @ us" "prefix us (x # v)"
    by (auto simp: prefix_append)
  then show "prefix p u"
  proof cases
    case 1 then show ?thesis .
  next
    case 2
    with assms have "us = []" by (cases us) auto
    with 2 show ?thesis by simp
  qed
next
  assume "prefix p u" then show "prefix p (u @ x # v)" by (simp add: prefix_prefix)
qed

lemma str_lower_line: "str_lower (l @ CHR 0x0A # r) = str_lower l @ CHR 0x0A # str_lower r"
  by (simp add: str_lower_def lower_char_def upper_letters_def lower_letters_def)

lemma matches_here_line:
  "a \<in> set facility_suffixes \<Longrightarrow> matches_here a (l @ CHR 0x0A # r) \<longleftrightarrow> matches_here a l"
  by (simp add: matches_here_def str_lower_line prefix_before suffix_no_LF)

lemma matches_here_length: "matches_here a s \<Longrightarrow> length a \<le> length s"
  by (metis matches_here_def prefix_length_le str_lower_length)

lemma find_cong_set: "(\<And>x. x \<in> set xs \<Longrightarrow> P x = Q x) \<Longrightarrow> find P xs = find Q xs"
  by (induction xs) auto

lemma match_alternation_line: "match_alternation (l @ CHR 0x0A # r) = match_alternation l"
proof -
  have eq: "find (\<lambda>a. matches_here a (l @ CHR 0x0A # r)) facility_suffixes
              = find (\<lambda>a. matches_here a l) facility_suffixes"
    by (rule find_cong_set) (rule matches_here_line)
  show ?thesis
  proof (cases "find (\<lambda>a. matches_here a l) facility_suffixes")
    case None
    with eq show ?thesis by (simp add: match_alternation_def)
  next
    case (Some a)
    then have "matches_here a l" using find_Some_set by fastforce
    then have "length a \<le> length l" by (rule matches_here_length)
    with Some eq show ?thesis by (simp add: match_alternation_def)
  qed
qed

lemma match_alternation_LF: "match_alternation (CHR 0x0A # r) = None"
proof -
  have "match_alternation ([] @ CHR 0x0A # r) = match_alternation []"
    by (rule match_alternation_line)
  then show ?thesis by (simp add: match_alternation_Nil)
qed

lemma match_lazy_LF: "match_lazy (CHR 0x0A # r) = None"
  by (simp add: match_alternation_LF)

lemma match_lazy_line:
  "CHR 0x0A \<notin> set l \<Longrightarrow> match_lazy (l @ CHR 0x0A # r) = match_lazy l"
proof (induction l)
  case Nil
  show ?case by (simp add: match_alternation_LF match_alternation_Nil)
next
  case (Cons c cs)
  then have "match_lazy (cs @ CHR 0x0A # r) = match_lazy cs" by simp
  moreover have "match_alternation (c # cs @ CHR 0x0A # r) = match_alternation (c # cs)"
    using match_alternation_line [of "c # cs" r] by simp
  ultimately show ?case by (simp split: option.splits)
qed

lemma split_lines_nonempty: "split_lines s \<noteq> []"
  by (induction s) (auto split: list.splits)

lemma split_lines_first:
  "split_lines s = l # ls \<Longrightarrow>
     CHR 0x0A \<notin> set l \<and> (s = l \<and> ls = [] \<or> (\<exists>r. s = l @ CHR 0x0A # r \<and> ls = split_lines r))"
proof (induction s arbitrary: l ls)
  case Nil
  then show ?case by simp
next
  case (Cons c cs)
  show ?case
  proof (cases "c = CHR 0x0A")
    case True
    with Cons.prems show ?thesis by auto
  next
    case False
    then obtain l' ls' where sp: "split_lines cs = l' # ls'" "l = c # l'" "ls = ls'"
      using Cons.prems split_lines_nonempty [of cs] by (auto split: list.splits)
    from Cons.IH [OF sp(1)] False sp show ?thesis by auto
  qed
qed

lemma split_lines_no_LF: "l \<in> set (split_lines s) \<Longrightarrow> CHR 0x0A \<notin> set l"
proof (induction s arbitrary: l rule: length_induct)
  case (1 s)
  obtain l0 ls where sp: "split_lines s = l0 # ls"
    using split_lines_nonempty [of s] by (cases "split_lines s") auto
  from split_lines_first [OF sp]
  have l0: "CHR 0x0A \<notin> set l0"
    and rest: "s = l0 \<and> ls = [] \<or> (\<exists>r. s = l0 @ CHR 0x0A # r \<and> ls = split_lines r)"
    by simp_all
  from "1.prems" sp have "l = l0 \<or> l \<in> set ls" by auto
  then show ?case
  proof
    assume "l = l0" with l0 show ?thesis by simp
  next
    assume in_ls: "l \<in> set ls"
    with rest obtain r where r: "s = l0 @ CHR 0x0A # r" "ls = split_lines r" by auto
    then have "length r < length s" by simp
    with "1.IH" in_ls r(2) show ?thesis by blast
  qed
qed

lemma match_lazy_first_line:
  assumes "split_lines s = l # ls"
  shows "match_lazy s = match_lazy l"
  using split_lines_first [OF assms] match_lazy_line by auto

lemma match_lazy_tail_None:
  "c \<noteq> CHR 0x0A \<Longrightarrow> match_lazy (c # cs) = None \<Longrightarrow> match_lazy cs = None"
  by (auto split: option.splits)

lemma re_search_lines:
  "re_search s =
     (case find (\<lambda>l. match_lazy l \<noteq> None) (split_lines s) of
        None \<Rightarrow> None
      | Some l \<Rightarrow> match_lazy l)"
proof (induction s)
  case Nil
  show ?case by (simp add: match_alternation_Nil)
next
  case (Cons c cs)
  show ?case
  proof (cases "c = CHR 0x0A")
    case True
    then show ?thesis using Cons.IH by (simp add: match_alternation_LF match_alternation_Nil)
  next
    case False
    obtain l ls where sp: "split_lines cs = l # ls"
      using split_lines_nonempty [of cs] by (cases "split_lines cs") auto
    with False have sp': "split_lines (c # cs) = (c # l) # ls" by simp
    have first: "match_lazy (c # cs) = match_lazy (c # l)"
      using match_lazy_first_line [OF sp'] .
    show ?thesis
    proof (cases "match_lazy (c # l)")
      case (Some m)
      with first sp' show ?thesis by simp
    next
      case None
      with False have "match_lazy l = None" using match_lazy_tail_None by blast
      with None first sp sp' Cons.IH show ?thesis by simp
    qed
  qed
qed

lemma hospital_name_of_first_match: "hospital_name_of content_text = first_match_name content_text"
proof -
  have eq: "find (\<lambda>l. match_lazy l \<noteq> None) (split_lines content_text)
              = find (\<lambda>l. shortest_suffixed_prefix l \<noteq> None) (split_lines content_text)"
    by (rule find_cong_set) (simp add: match_lazy_eq_shortest split_lines_no_LF)
  show ?thesis
  proof (cases "find (\<lambda>l. shortest_suffixed_prefix l \<noteq> None) (split_lines content_text)")
    case None
    with eq show ?thesis
      by (simp add: hospital_name_of_def first_match_name_def re_search_lines)
  next
    case (Some l)
    then have "l \<in> set (split_lines content_text)" using find_Some_set by fastforce
    then have "match_lazy l = shortest_suffixed_prefix l"
      by (simp add: match_lazy_eq_shortest split_lines_no_LF)
    with Some eq show ?thesis
      by (simp add: hospital_name_of_def first_match_name_def re_search_lines split: option.splits)
  qed
qed

lemma split_lines_single: "CHR 0x0A \<notin> set s \<Longrightarrow> split_lines s = [s]"
  by (induction s) auto

lemma first_match_name_single:
  "CHR 0x0A \<notin> set s \<Longrightarrow>
     first_match_name s =
       (case shortest_suffixed_prefix s of None \<Rightarrow> ''Unknown Hospital'' | Some p \<Rightarrow> str_strip p)"
  by (simp add: first_match_name_def split_lines_single split: option.splits)

text \<open>What \<^const>\<open>shortest_suffixed_prefix\<close> computes is the shortest leading substring
  that ends in a facility suffix.\<close>

lemma shortest_suffixed_prefix_iff:
  "shortest_suffixed_prefix l = Some p \<longleftrightarrow>
     prefix p l \<and> ends_with_facility_suffix p \<and>
     (\<forall>q. prefix q l \<and> ends_with_facility_suffix q \<longrightarrow> length p \<le> length q)"
proof
  assume "shortest_suffixed_prefix l = Some p"
  then obtain n where fn: "find (\<lambda>n. ends_with_facility_suffix (take n l)) [0..<Suc (length l)] = Some n"
    and pn: "p = take n l"
    unfolding shortest_suffixed_prefix_def by blast
  from fn have "n < Suc (length l) \<and> ends_with_facility_suffix (take n l) \<and>
                (\<forall>j<n. \<not> ends_with_facility_suffix (take j l))"
    by (simp add: find_upt_least del: upt_Suc)
  with pn have n: "p = take n l" "n < Suc (length l)" "ends_with_facility_suffix (take n l)"
    "\<forall>j<n. \<not> ends_with_facility_suffix (take j l)"
    by blast+
  have "length p \<le> length q" if "prefix q l" "ends_with_facility_suffix q" for q
  proof -
    from that(1) have "take (length q) l = q" by (metis append_eq_conv_conj prefix_def)
    with that(2) n(4) have "\<not> length q < n" by auto
    with n(1) show ?thesis by simp
  qed
  with n show "prefix p l \<and> ends_with_facility_suffix p \<and>
     (\<forall>q. prefix q l \<and> ends_with_facility_suffix q \<longrightarrow> length p \<le> length q)"
    by (simp add: take_is_prefix)
next
  assume p: "prefix p l \<and> ends_with_facility_suffix p \<and>
     (\<forall>q. prefix q l \<and> ends_with_facility_suffix q \<longrightarrow> length p \<le> length q)"
  then have tk: "take (length p) l = p" by (metis append_eq_conv_conj prefix_def)
  from p have len: "length p < Suc (length l)" by (simp add: prefix_length_le less_Suc_eq_le)
  have "\<not> ends_with_facility_suffix (take j l)" if "j < length p" for j
  proof
    assume "ends_with_facility_suffix (take j l)"
    with p take_is_prefix [of j l] have "length p \<le> length (take j l)" by blast
    with that show False by simp
  qed
  with tk p len
  have "find (\<lambda>n. ends_with_facility_suffix (take n l)) [0..<Suc (length l)] = Some (length p)"
    by (simp only: find_upt_least) simp
  with tk show "shortest_suffixed_prefix l = Some p" by (simp add: shortest_suffixed_prefix_def)
qed

text \<open>Whatever the pattern matches ends in a facility suffix and lies inside the
  text, so a text in which no suffix occurs gets the placeholder.\<close>

lemma match_lazy_ends:
  "match_lazy s = Some m \<Longrightarrow> prefix m s \<and> ends_with_facility_suffix m"
proof (induction s arbitrary: m)
  case Nil
  then show ?case by (simp add: match_alternation_Nil)
next
  case (Cons c cs)
  show ?case
  proof (cases "match_alternation (c # cs)")
    case (Some m0)
    with Cons.prems have "m0 = m" by simp
    with Some obtain a where "a \<in> set facility_suffixes" "matches_here a (c # cs)"
      "m = take (length a) (c # cs)"
      using match_alternation_Some by blast
    then show ?thesis using matched_ends [of a "c # cs"] by (simp add: take_is_prefix)
  next
    case None
    with Cons.prems obtain m' where m': "match_lazy cs = Some m'" "m = c # m'"
      by (auto split: if_splits)
    from Cons.IH [OF m'(1)] m'(2) show ?thesis by (simp add: ends_ConsI)
  qed
qed

lemma re_search_ends:
  "re_search s = Some m \<Longrightarrow> \<exists>pre. prefix (pre @ m) s \<and> ends_with_facility_suffix m"
proof (induction s)
  case Nil
  then show ?case by (simp add: match_alternation_Nil)
next
  case (Cons c cs)
  show ?case
  proof (cases "match_lazy (c # cs)")
    case (Some m0)
    with Cons.prems have "match_lazy (c # cs) = Some m" by simp
    from match_lazy_ends [OF this] show ?thesis by (intro exI [of _ "[]"]) simp
  next
    case None
    with Cons.prems have "re_search cs = Some m" by simp
    from Cons.IH [OF this] obtain pre where "prefix (pre @ m) cs" "ends_with_facility_suffix m"
      by blast
    then show ?thesis by (intro exI [of _ "c # pre"]) simp
  qed
qed

lemma ends_append: "ends_with_facility_suffix m \<Longrightarrow> ends_with_facility_suffix (pre @ m)"
  by (auto simp: ends_iff str_lower_def intro: suffix_appendI)

lemma no_suffix_placeholder:
  assumes "\<forall>p. prefix p s \<longrightarrow> \<not> ends_with_facility_suffix p"
  shows "hospital_name_of s = ''Unknown Hospital''"
proof (cases "re_search s")
  case None
  then show ?thesis by (simp add: hospital_name_of_def)
next
  case (Some m)
  from re_search_ends [OF this] obtain pre where "prefix (pre @ m) s" "ends_with_facility_suffix m"
    by blast
  with assms ends_append [of m pre] show ?thesis by blast
qed

text \<open>The entry parser always builds a record.\<close>

lemma py_in_offers:
  "offers_lat_lng v \<longleftrightarrow> py_in ''lat'' v = Inr True \<and> py_in ''lng'' v = Inr True"
  by (cases v) (auto simp: map_of_eq_None_iff)

lemma py_in_lat_cases:
  "py_in ''lat'' v = Inr True \<or> py_in ''lat'' v = Inr False \<or> py_in ''lat'' v = Inl TypeError"
  by (cases v) auto

lemma extract_coordinates_decoded:
  "extract_coordinates_with_openai json_loads create hospital_name addr location =
     (case decoded_reply json_loads create hospital_name addr location of
        None \<Rightarrow> None
      | Some v \<Rightarrow> if offers_lat_lng v then Some v else None)"
proof (cases "decoded_reply json_loads create hospital_name addr location")
  case None
  then show ?thesis
    by (auto simp: decoded_reply_def extract_coordinates_with_openai_def split: openai_reply.splits)
next
  case (Some v)
  then obtain reply where r: "create hospital_name addr location = Reply reply"
    "json_loads (str_strip reply) = Some v"
    by (auto simp: decoded_reply_def split: openai_reply.splits)
  have "extract_coordinates_with_openai json_loads create hospital_name addr location
          = (if offers_lat_lng v then Some v else None)"
    using r by (cases v) (auto simp: extract_coordinates_with_openai_def map_of_eq_None_iff)
  with Some show ?thesis by simp
qed

lemma offers_truthy: "offers_lat_lng v \<Longrightarrow> py_truthy v"
  by (cases v) auto

lemma extract_coordinates_fails:
  "resolution_fails json_loads create hospital_name addr location \<Longrightarrow>
     extract_coordinates_with_openai json_loads create hospital_name addr location = None"
  by (auto simp: resolution_fails_def extract_coordinates_decoded split: option.splits)

lemma extract_coordinates_succeeds:
  "\<not> resolution_fails json_loads create hospital_name addr location \<Longrightarrow>
     extract_coordinates_with_openai json_loads create hospital_name addr location
       = decoded_reply json_loads create hospital_name addr location \<and>
     opt_truthy (decoded_reply json_loads create hospital_name addr location)"
  by (auto simp: resolution_fails_def extract_coordinates_decoded opt_truthy_def offers_truthy
           split: option.splits)

text \<open>The record built for one entry, field by field.\<close>

lemma parse_hospital_exact:
  "parse_hospital_from_rag_content json_loads create content_text meta location =
     Some \<lparr> name = hospital_name_of content_text,
            address = ''123 Healthcare Blvd, '' @ location,
            phone = ''(555) 123-4567'',
            services = [''Emergency Care'', ''Urgent Care'', ''General Medicine''],
            rating = 4.2,
            emergency = True,
            urgent_care = True,
            coordinates =
              (if resolution_fails json_loads create (hospital_name_of content_text)
                    (''123 Healthcare Blvd, '' @ location) location
               then None
               else decoded_reply json_loads create (hospital_name_of content_text)
                      (''123 Healthcare Blvd, '' @ location) location),
            relevance_score = dict_get meta ''relevance_score'' (JNum 0) \<rparr>"
proof (cases "resolution_fails json_loads create (hospital_name_of content_text)
                (''123 Healthcare Blvd, '' @ location) location")
  case True
  from extract_coordinates_fails [OF this] True show ?thesis
    by (simp add: parse_hospital_from_rag_content_def Let_def opt_truthy_def)
next
  case False
  from extract_coordinates_succeeds [OF this] False show ?thesis
    by (simp add: parse_hospital_from_rag_content_def Let_def opt_truthy_def)
qed

lemma parse_hospital_record:
  "\<exists>h. parse_hospital_from_rag_content json_loads create content_text meta location = Some h \<and>
       name h = hospital_name_of content_text \<and>
       address h = ''123 Healthcare Blvd, '' @ location \<and>
       relevance_score h = dict_get meta ''relevance_score'' (JNum 0) \<and>
       (coordinates h = None \<or>
        coordinates h = extract_coordinates_with_openai json_loads create
                          (hospital_name_of content_text) (''123 Healthcare Blvd, '' @ location) location)"
  by (simp add: parse_hospital_from_rag_content_def Let_def opt_truthy_def)

text \<open>
  C4 (amended). For every narrative content string, the parsed facility name is the
  first match of the pattern: letters compared without case, it is the shortest leading
  substring that ends in one of the suffixes Hospital, Medical Center, Clinic, Care
  Center, taken of the first line of the content in which a suffix occurs, with the
  white space around it removed (\<^const>\<open>first_match_name\<close>; for a content of one
  line this is the shortest such leading substring of the content itself). When no
  leading substring of the content ends in a suffix the name is the placeholder
  \<open>Unknown Hospital\<close>. The adapter always returns a record with that name: it does
  not raise.
\<close>

theorem parsed_name_is_first_match:
  "hospital_name_of content_text = first_match_name content_text \<and>
   (CHR 0x0A \<notin> set content_text \<longrightarrow>
      hospital_name_of content_text =
        (case shortest_suffixed_prefix content_text of
           None \<Rightarrow> ''Unknown Hospital''
         | Some p \<Rightarrow> str_strip p)) \<and>
   ((\<forall>p. prefix p content_text \<longrightarrow> \<not> ends_with_facility_suffix p) \<longrightarrow>
      hospital_name_of content_text = ''Unknown Hospital'') \<and>
   (\<exists>h. parse_hospital_from_rag_content json_loads create content_text meta location = Some h \<and>
        name h = hospital_name_of content_text)"
  using hospital_name_of_first_match [of content_text] first_match_name_single [of content_text]
    no_suffix_placeholder [of content_text]
    parse_hospital_record [of json_loads create content_text meta location]
  by auto

text \<open>Instances: a name behind leading blanks, a name behind a no-break space, and a
  text that names no facility.\<close>

theorem parsed_name_is_first_match_witness:
  "(\<exists>h. parse_hospital_from_rag_content json_loads_rejects (openai_down 0)
          ''  City General Hospital in Boston - Community hospital offering urgent care'' []
          ''Boston'' = Some h \<and>
        name h = ''City General Hospital'') \<and>
   hospital_name_of (CHR 0xA0 # ''City Hospital of Boston'') = ''City Hospital'' \<and>
   hospital_name_of ''no facility is named here'' = ''Unknown Hospital''"
proof -
  let ?c = "''  City General Hospital in Boston - Community hospital offering urgent care''"
  let ?d = "''no facility is named here''"
  let ?e = "CHR 0xA0 # ''City Hospital of Boston''"
  have a: "first_match_name ?c = ''City General Hospital''" by code_simp
  have a': "first_match_name ?e = ''City Hospital''" by code_simp
  from a' parsed_name_is_first_match [of ?e json_loads_rejects "openai_down 0" "[]" "''Boston''"]
  have 3: "hospital_name_of ?e = ''City Hospital''" by metis
  have "\<forall>p\<in>set (prefixes ?d). \<not> ends_with_facility_suffix p" by code_simp
  then have b: "\<forall>p. prefix p ?d \<longrightarrow> \<not> ends_with_facility_suffix p"
    by (simp only: in_set_prefixes [symmetric]) blast
  from a parsed_name_is_first_match [of ?c json_loads_rejects "openai_down 0" "[]" "''Boston''"]
  have 1: "\<exists>h. parse_hospital_from_rag_content json_loads_rejects (openai_down 0) ?c [] ''Boston'' = Some h \<and>
        name h = ''City General Hospital''"
    by metis
  from b parsed_name_is_first_match [of ?d json_loads_rejects "openai_down 0" "[]" "''Boston''"]
  have 2: "hospital_name_of ?d = ''Unknown Hospital''" by blast
  from 1 2 3 show ?thesis by blast
qed

text \<open>
  The longest leading substring is not what is parsed: for the content
  \<open>A Clinic and B Hospital\<close> the name is \<open>A Clinic\<close>, although the whole content is a
  longer leading substring that ends in \<open>Hospital\<close>.
\<close>

theorem longest_leading_substring_counterexample:
  "map_option name (parse_hospital_from_rag_content json_loads_rejects (openai_down 0)
      ''A Clinic and B Hospital'' [] ''Boston'') = Some ''A Clinic'' \<and>
   prefix ''A Clinic and B Hospital'' ''A Clinic and B Hospital'' \<and>
   suffix ''Hospital'' ''A Clinic and B Hospital'' \<and>
   length ''A Clinic'' < length ''A Clinic and B Hospital''"
proof -
  have n: "hospital_name_of ''A Clinic and B Hospital'' = ''A Clinic''" by code_simp
  have s: "suffix ''Hospital'' ''A Clinic and B Hospital''" by code_simp
  from parse_hospital_record [of json_loads_rejects "openai_down 0" "''A Clinic and B Hospital''" "[]" "''Boston''"] n
  have "map_option name (parse_hospital_from_rag_content json_loads_rejects (openai_down 0)
      ''A Clinic and B Hospital'' [] ''Boston'') = Some ''A Clinic''"
    by auto
  with s show ?thesis by simp
qed

section \<open>The batch keeps every entry\<close>

lemma parse_hospital_failed:
  assumes "resolution_fails json_loads create (hospital_name_of content_text)
             (''123 Healthcare Blvd, '' @ location) location"
  shows "\<exists>h. parse_hospital_from_rag_content json_loads create content_text meta location = Some h \<and>
             coordinates h = None"
  using parse_hospital_record [of json_loads create content_text meta location]
    extract_coordinates_fails [OF assms] by auto

lemma collect_hospitals_length:
  "length (collect_hospitals json_loads client location n results) = length results"
proof (induction results arbitrary: n)
  case Nil
  show ?case by simp
next
  case (Cons r rs)
  obtain h where "parse_hospital_from_rag_content json_loads (client n)
                    (content r) (metadata r) location = Some h"
    using parse_hospital_record by blast
  with Cons.IH show ?case by simp
qed

lemma collect_hospitals_nth:
  "i < length results \<Longrightarrow>
     parse_hospital_from_rag_content json_loads (client (n + i))
        (content (results ! i)) (metadata (results ! i)) location
       = Some (collect_hospitals json_loads client location n results ! i)"
proof (induction results arbitrary: n i)
  case Nil
  then show ?case by simp
next
  case (Cons r rs)
  obtain h where h: "parse_hospital_from_rag_content json_loads (client n)
                    (content r) (metadata r) location = Some h"
    using parse_hospital_record by blast
  show ?case
  proof (cases i)
    case 0
    with h show ?thesis by simp
  next
    case (Suc j)
    with Cons.prems have "j < length rs" by simp
    from Cons.IH [OF this, of "Suc n"] h Suc show ?thesis by simp
  qed
qed

lemma extract_all_three:
  "length (extract_hospital_locations_from_rag json_loads client location injury_type) = 3"
proof -
  have "length (mock_rag_results location) = 3"
    by (simp add: mock_rag_results_def)
  then show ?thesis
    by (simp only: extract_hospital_locations_from_rag_def collect_hospitals_length)
qed

text \<open>
  C5. Whatever the entries of the batch are, every entry yields a record, in the order
  of the entries (none is lost and nothing is raised), and the record is the one built
  from its entry: the parsed name, the fixed address, phone, services, rating and
  flags, the entry's relevance score, and as \<open>coordinates\<close> the decoded reply of the
  entry's own call, or \<open>None\<close> when the resolution fails. So for every entry whose
  coordinate resolution fails (the client raises, a time-out included, its text is not
  JSON, or the JSON offers no coordinates) the record's \<open>coordinates\<close> is \<open>None\<close>,
  never a pair of zeros, whatever happens to the other entries; and the three mock
  entries always yield three records.
\<close>

theorem failed_resolution_leaves_coordinates_absent:
  "length (collect_hospitals json_loads client location n results) = length results \<and>
   (\<forall>i<length results.
      collect_hospitals json_loads client location n results ! i =
        \<lparr> name = hospital_name_of (content (results ! i)),
          address = ''123 Healthcare Blvd, '' @ location,
          phone = ''(555) 123-4567'',
          services = [''Emergency Care'', ''Urgent Care'', ''General Medicine''],
          rating = 4.2,
          emergency = True,
          urgent_care = True,
          coordinates =
            (if resolution_fails json_loads (client (n + i))
                  (hospital_name_of (content (results ! i)))
                  (''123 Healthcare Blvd, '' @ location) location
             then None
             else decoded_reply json_loads (client (n + i))
                    (hospital_name_of (content (results ! i)))
                    (''123 Healthcare Blvd, '' @ location) location),
          relevance_score = dict_get (metadata (results ! i)) ''relevance_score'' (JNum 0) \<rparr>) \<and>
   (\<forall>i<length results.
      resolution_fails json_loads (client (n + i)) (hospital_name_of (content (results ! i)))
         (''123 Healthcare Blvd, '' @ location) location \<longrightarrow>
      coordinates (collect_hospitals json_loads client location n results ! i) = None) \<and>
   extract_hospital_locations_from_rag json_loads client location injury_type
     = collect_hospitals json_loads client location 0 (mock_rag_results location) \<and>
   length (extract_hospital_locations_from_rag json_loads client location injury_type) = 3"
proof -
  have each: "collect_hospitals json_loads client location n results ! i =
        \<lparr> name = hospital_name_of (content (results ! i)),
          address = ''123 Healthcare Blvd, '' @ location,
          phone = ''(555) 123-4567'',
          services = [''Emergency Care'', ''Urgent Care'', ''General Medicine''],
          rating = 4.2,
          emergency = True,
          urgent_care = True,
          coordinates =
            (if resolution_fails json_loads (client (n + i))
                  (hospital_name_of (content (results ! i)))
                  (''123 Healthcare Blvd, '' @ location) location
             then None
             else decoded_reply json_loads (client (n + i))
                    (hospital_name_of (content (results ! i)))
                    (''123 Healthcare Blvd, '' @ location) location),
          relevance_score = dict_get (metadata (results ! i)) ''relevance_score'' (JNum 0) \<rparr>"
    if "i < length results" for i
    using collect_hospitals_nth [OF that, of json_loads client n location]
      parse_hospital_exact [of json_loads "client (n + i)" "content (results ! i)"
        "metadata (results ! i)" location]
    by simp
  have absent: "coordinates (collect_hospitals json_loads client location n results ! i) = None"
    if "i < length results"
      "resolution_fails json_loads (client (n + i)) (hospital_name_of (content (results ! i)))
         (''123 Healthcare Blvd, '' @ location) location" for i
    using each [OF that(1)] that(2) by simp
  from each absent show ?thesis
    by (simp add: collect_hospitals_length extract_all_three)
       (simp add: extract_hospital_locations_from_rag_def)
qed

text \<open>An instance: the first call raises, the second answers \<open>{}\<close>, the third answers
  coordinates; each reply comes wrapped in white space that \<open>strip\<close> removes.\<close>

theorem failed_resolution_leaves_coordinates_absent_witness:
  "length (collect_hospitals json_loads_small openai_scripted ''Boston'' 0
             (mock_rag_results ''Boston'')) = 3 \<and>
   coordinates (collect_hospitals json_loads_small openai_scripted ''Boston'' 0
             (mock_rag_results ''Boston'') ! 0) = None \<and>
   coordinates (collect_hospitals json_loads_small openai_scripted ''Boston'' 0
             (mock_rag_results ''Boston'') ! 1) = None \<and>
   coordinates (collect_hospitals json_loads_small openai_scripted ''Boston'' 0
             (mock_rag_results ''Boston'') ! 2) = Some (JObj [(''lat'', JNum 1), (''lng'', JNum 2)])"
proof -
  let ?rs = "mock_rag_results ''Boston''"
  let ?out = "collect_hospitals json_loads_small openai_scripted ''Boston'' 0 ?rs"
  have len: "length ?rs = 3" by (simp add: mock_rag_results_def)
  have s1: "str_strip [CHR 0xA0, CHR ''{'', CHR ''}'', CHR 0xA0] = ''{}''"
    by (simp add: str_strip_def is_space_def)
  have s2: "str_strip (CHR 0xA0 # lat_lng_reply @ [CHR 0x0A]) = lat_lng_reply"
    by (simp add: str_strip_def is_space_def lat_lng_reply_def)
  have ne: "lat_lng_reply \<noteq> ''{}''" by (simp add: lat_lng_reply_def)
  note inst = failed_resolution_leaves_coordinates_absent
               [of json_loads_small openai_scripted "''Boston''" 0 ?rs "''general''"]
  note each = inst [THEN conjunct2, THEN conjunct1, rule_format]
  from inst len have l: "length ?out = 3" by simp
  from each [of 0] len have c0: "coordinates (?out ! 0) = None"
    by (simp add: resolution_fails_def decoded_reply_def openai_scripted_def)
  from each [of 1] len have c1: "coordinates (?out ! 1) = None"
    by (simp add: resolution_fails_def decoded_reply_def openai_scripted_def s1
          json_loads_small_def)
  from each [of 2] len
  have c2: "coordinates (?out ! 2) = Some (JObj [(''lat'', JNum 1), (''lng'', JNum 2)])"
    by (simp add: resolution_fails_def decoded_reply_def openai_scripted_def s2
          json_loads_small_def ne)
  from l c0 c1 c2 show ?thesis by blast
qed

text \<open>The names, the scores and the order of the records do not depend on what the
  client answers.\<close>

lemma collect_hospitals_scores_fixed:
  "map (\<lambda>h. (name h, relevance_score h)) (collect_hospitals json_loads client location n results)
     = map (\<lambda>r. (hospital_name_of (content r), dict_get (metadata r) ''relevance_score'' (JNum 0)))
         results"
proof (induction results arbitrary: n)
  case Nil
  show ?case by simp
next
  case (Cons r rs)
  obtain h where "parse_hospital_from_rag_content json_loads (client n)
                    (content r) (metadata r) location = Some h"
    "name h = hospital_name_of (content r)"
    "relevance_score h = dict_get (metadata r) ''relevance_score'' (JNum 0)"
    using parse_hospital_record by blast
  with Cons.IH show ?case by simp
qed

lemma slice_to_length: "0 \<le> n \<Longrightarrow> int (length (slice_to xs n)) \<le> n"
  by (simp add: slice_to_def)

lemma endpoint_bound:
  "0 \<le> max_results request \<Longrightarrow>
     int (length (hospitals (get_hospitals_from_rag json_loads client request))) \<le> max_results request"
  by (simp add: get_hospitals_from_rag_def Let_def slice_to_length)

lemma endpoint_minus_one:
  "length (hospitals (get_hospitals_from_rag json_loads_rejects openai_down
      \<lparr>req_location = ''Boston'', req_injury_type = ''general'', max_results = - 1\<rparr>)) = 2"
  by (simp add: get_hospitals_from_rag_def Let_def slice_to_def extract_all_three)

section \<open>The frontend keeps the records that have coordinates\<close>

lemma make_hospital_coords [simp]:
  "lat (make_hospital r f) = js_get r ''lat''" "lng (make_hospital r f) = js_get r ''lng''"
  by (simp_all add: make_hospital_def)

lemma extract_loop_filter:
  assumes "JNull \<notin> set records"
  shows "\<exists>out. extract_loop rnd n records acc = Inr (acc @ out) \<and>
           list_all2 (\<lambda>r h. \<exists>fresh. h = make_hospital r fresh) (filter has_coordinates records) out"
  using assms
proof (induction records arbitrary: n acc)
  case Nil
  show ?case by simp
next
  case (Cons r rs)
  then have r: "r \<noteq> JNull" and rs: "JNull \<notin> set rs" by auto
  show ?case
  proof (cases "has_coordinates r")
    case True
    let ?n' = "if js_truthy (js_get r ''id'') then n else Suc n"
    from Cons.IH [OF rs, of ?n' "acc @ [make_hospital r (rnd n)]"]
    obtain out where out: "extract_loop rnd ?n' rs (acc @ [make_hospital r (rnd n)])
                             = Inr ((acc @ [make_hospital r (rnd n)]) @ out)"
      "list_all2 (\<lambda>r h. \<exists>fresh. h = make_hospital r fresh) (filter has_coordinates rs) out"
      by blast
    have "extract_loop rnd n (r # rs) acc = Inr (acc @ (make_hospital r (rnd n) # out))"
      using True r out(1) by (simp add: has_coordinates_def)
    moreover have "list_all2 (\<lambda>r h. \<exists>fresh. h = make_hospital r fresh)
                     (filter has_coordinates (r # rs)) (make_hospital r (rnd n) # out)"
      using True out(2) by auto
    ultimately show ?thesis by blast
  next
    case False
    from Cons.IH [OF rs, of n acc] False r show ?thesis
      by (auto simp: has_coordinates_def)
  qed
qed

lemma js_get_Val_truthy: "js_get v k = Val w \<Longrightarrow> js_truthy_json v"
  by (cases v) auto

lemma coords_of_built:
  "list_all2 (\<lambda>r h. \<exists>fresh. h = make_hospital r fresh) rs out \<Longrightarrow>
     map (\<lambda>h. (lat h, lng h)) out = map (\<lambda>r. (js_get r ''lat'', js_get r ''lng'')) rs"
  by (induction rule: list_all2_induct) auto

lemma not_truthy_values: "js_truthy v \<Longrightarrow> v \<noteq> Undefined \<and> v \<noteq> Val JNull \<and> v \<noteq> Val (JNum 0)"
  by auto

lemma extractHospitalDataFromRAG_nothing_to_read:
  "\<not> js_truthy_json ragResponse \<or> \<not> js_truthy (js_get ragResponse ''hospitals'') \<Longrightarrow>
     extractHospitalDataFromRAG rnd ragResponse = Inr []"
  by (auto simp: extractHospitalDataFromRAG_def)

text \<open>
  C10. \<open>extractHospitalDataFromRAG\<close>, given a response whose \<open>hospitals\<close> is an
  array of records (no entry is \<open>null\<close>), returns exactly the records whose \<open>lat\<close>
  and \<open>lng\<close> are both present and truthy, in their input order, each built from its
  record with \<open>lat\<close> and \<open>lng\<close> copied unchanged; a record with a missing, \<open>null\<close>
  or zero coordinate is dropped, so no returned facility has latitude 0 or longitude 0.
\<close>

theorem extractHospitalDataFromRAG_keeps_located_records:
  assumes "js_get ragResponse ''hospitals'' = Val (JArr records)" and "JNull \<notin> set records"
  shows "\<exists>out. extractHospitalDataFromRAG rnd ragResponse = Inr out \<and>
           list_all2 (\<lambda>r h. \<exists>fresh. h = make_hospital r fresh) (filter has_coordinates records) out \<and>
           map (\<lambda>h. (lat h, lng h)) out
             = map (\<lambda>r. (js_get r ''lat'', js_get r ''lng'')) (filter has_coordinates records) \<and>
           (\<forall>h\<in>set out. lat h \<notin> {Undefined, Val JNull, Val (JNum 0)} \<and>
                         lng h \<notin> {Undefined, Val JNull, Val (JNum 0)})"
proof -
  from extract_loop_filter [OF assms(2), of rnd 0 "[]"]
  obtain out where out: "extract_loop rnd 0 records [] = Inr out"
    "list_all2 (\<lambda>r h. \<exists>fresh. h = make_hospital r fresh) (filter has_coordinates records) out"
    by auto
  have run: "extractHospitalDataFromRAG rnd ragResponse = Inr out"
    using assms(1) out(1) js_get_Val_truthy [OF assms(1)]
    by (simp add: extractHospitalDataFromRAG_def)
  have coords: "map (\<lambda>h. (lat h, lng h)) out
             = map (\<lambda>r. (js_get r ''lat'', js_get r ''lng'')) (filter has_coordinates records)"
    using out(2) by (rule coords_of_built)
  have "lat h \<notin> {Undefined, Val JNull, Val (JNum 0)} \<and> lng h \<notin> {Undefined, Val JNull, Val (JNum 0)}"
    if "h \<in> set out" for h
  proof -
    from that have "(lat h, lng h) \<in> set (map (\<lambda>h. (lat h, lng h)) out)" by auto
    with coords obtain r where "has_coordinates r" "lat h = js_get r ''lat''" "lng h = js_get r ''lng''"
      by auto
    then show ?thesis using not_truthy_values by (auto simp: has_coordinates_def)
  qed
  with run out(2) coords show ?thesis by blast
qed

theorem extractHospitalDataFromRAG_keeps_located_records_witness:
  "\<exists>out. extractHospitalDataFromRAG (\<lambda>n. ''k3x9q0a1z'')
            (JObj [(''success'', JBool True),
                   (''hospitals'', JArr
                      [JObj [(''name'', JStr ''Equator Clinic''), (''lat'', JNum 0), (''lng'', JNum 12)],
                       JObj [(''name'', JStr ''City Hospital''), (''lat'', JNum 42), (''lng'', JNum (- 71))],
                       JObj [(''name'', JStr ''No Longitude''), (''lat'', JNum 42)]])]) = Inr out \<and>
         map (\<lambda>h. (lat h, lng h)) out = [(Val (JNum 42), Val (JNum (- 71)))]"
proof -
  let ?records = "[JObj [(''name'', JStr ''Equator Clinic''), (''lat'', JNum 0), (''lng'', JNum 12)],
                   JObj [(''name'', JStr ''City Hospital''), (''lat'', JNum 42), (''lng'', JNum (- 71))],
                   JObj [(''name'', JStr ''No Longitude''), (''lat'', JNum 42)]]"
  let ?resp = "JObj [(''success'', JBool True), (''hospitals'', JArr ?records)]"
  have a: "js_get ?resp ''hospitals'' = Val (JArr ?records)" by simp
  have b: "JNull \<notin> set ?records" by simp
  have c: "map (\<lambda>r. (js_get r ''lat'', js_get r ''lng'')) (filter has_coordinates ?records)
             = [(Val (JNum 42), Val (JNum (- 71)))]"
    by (simp add: has_coordinates_def)
  from extractHospitalDataFromRAG_keeps_located_records [OF a b, of "\<lambda>n. ''k3x9q0a1z''"] c
  show ?thesis by auto
qed

section \<open>The retrieval core: bounds and edge cases\<close>

lemma clamp01_range: "0 \<le> clamp01 x \<and> clamp01 x \<le> 1"
  by (simp add: clamp01_def)

lemma score_range:
  "0 \<le> fst (score cal q d) \<and> fst (score cal q d) \<le> 1 \<and>
   0 \<le> snd (score cal q d) \<and> snd (score cal q d) \<le> 1"
  by (simp add: score_def clamp01_range)

lemma rank_length: "0 \<le> k \<Longrightarrow> int (length (rank cal q ds k)) \<le> k"
  by (simp add: rank_def)

lemma rank_members:
  "s \<in> set (rank cal q ds k) \<Longrightarrow> \<exists>d\<in>set ds. s = scored cal q d"
proof -
  assume "s \<in> set (rank cal q ds k)"
  then have "s \<in> set (sort_key (\<lambda>s. - relevancy s) (map (scored cal q) ds))"
    unfolding rank_def by (rule in_set_takeD)
  then show ?thesis by auto
qed

lemma tokenize_blank: "\<forall>c\<in>set q. is_space c \<Longrightarrow> tokenize q = []"
proof -
  assume "\<forall>c\<in>set q. is_space c"
  then have "\<forall>c\<in>set (str_lower q). is_separator c"
    using blank_lower by (auto simp: is_separator_def)
  then show ?thesis by (simp add: tokenize_def split_on_all_separators)
qed

lemma score_blank: "tokenize q = [] \<Longrightarrow> fst (score cal q d) = 0"
  by (simp add: score_def)

lemma score_empty_body: "body d = [] \<Longrightarrow> score cal q d = (0, 0)"
  by (simp add: score_def)

lemma rank_Nil: "rank cal q [] k = []"
  by (simp add: rank_def)

lemma rank_default_length: "int (length (rank cal q ds default_k)) \<le> 3"
  using rank_length [of default_k cal q ds] by (simp add: default_k_def)

lemma rank_scores_in_range:
  assumes "s \<in> set (rank cal q ds k)"
  shows "0 \<le> relevancy s \<and> relevancy s \<le> 1 \<and> 0 \<le> similarity s \<and> similarity s \<le> 1"
proof -
  from rank_members [OF assms] obtain d where "s = scored cal q d" by blast
  then show ?thesis using score_range [of cal q d] by (simp add: scored_def)
qed

lemma rank_blank_zero:
  assumes "tokenize q = []" "s \<in> set (rank cal q ds k)"
  shows "relevancy s = 0"
proof -
  from rank_members [OF assms(2)] obtain d where "s = scored cal q d" by blast
  then show ?thesis using score_blank [OF assms(1), of cal d] by (simp add: scored_def)
qed

text \<open>
  C2 (amended). For every query, every document sequence and every \<open>k \<ge> 0\<close>,
  \<open>rank\<close> returns at most \<open>k\<close> documents (at most 3 with the default \<open>k\<close>), and
  every returned document has relevancy and similarity between 0 and 1; and for every
  request with \<open>max_results \<ge> 0\<close> the hospital RAG endpoint returns at most
  \<open>max_results\<close> records.
\<close>

theorem rank_and_endpoint_bounded:
  "(0 \<le> k \<longrightarrow> int (length (rank cal query ds k)) \<le> k) \<and>
   int (length (rank cal query ds default_k)) \<le> 3 \<and>
   (\<forall>s\<in>set (rank cal query ds k).
      0 \<le> relevancy s \<and> relevancy s \<le> 1 \<and> 0 \<le> similarity s \<and> similarity s \<le> 1) \<and>
   (0 \<le> max_results request \<longrightarrow>
      int (length (hospitals (get_hospitals_from_rag json_loads client request)))
        \<le> max_results request)"
  using rank_length [of k cal query ds] rank_default_length [of cal query ds]
    rank_scores_in_range [of _ cal query ds k] endpoint_bound [of request json_loads client]
  by blast

text \<open>An instance with \<open>k = 2\<close> and \<open>max_results = 2\<close>.\<close>

theorem rank_and_endpoint_bounded_witness:
  "int (length (rank
      \<lparr> priority_terms = (\<lambda>c. if c = Emergency then [''emergency''] else []),
      category_of = (\<lambda>d. if doc_id d = ''1'' then Some Emergency else None) \<rparr>
      ''Emergency room chest pain''
      [\<lparr> doc_id = ''2'', title = ''Chest pain'', body = ''Chest pain and room'',
         source = ''General Healthcare Guidelines'' \<rparr>,
      \<lparr> doc_id = ''1'', title = ''Emergency'', body = ''Emergency guidelines'',
         source = ''Emergency Response Guidelines'' \<rparr>,
      \<lparr> doc_id = ''3'', title = ''Empty'', body = [],
         source = ''None'' \<rparr>] 2)) \<le> 2 \<and>
   int (length (hospitals (get_hospitals_from_rag json_loads_rejects openai_down
      \<lparr>req_location = ''Boston'', req_injury_type = ''general'', max_results = 2\<rparr>))) \<le> 2"
proof -
  let ?cal = "\<lparr> priority_terms = (\<lambda>c. if c = Emergency then [''emergency''] else []),
                category_of = (\<lambda>d. if doc_id d = ''1'' then Some Emergency else None) \<rparr>"
  let ?corpus = "[\<lparr> doc_id = ''2'', title = ''Chest pain'', body = ''Chest pain and room'',
                    source = ''General Healthcare Guidelines'' \<rparr>,
                 \<lparr> doc_id = ''1'', title = ''Emergency'', body = ''Emergency guidelines'',
                    source = ''Emergency Response Guidelines'' \<rparr>,
                 \<lparr> doc_id = ''3'', title = ''Empty'', body = [],
                    source = ''None'' \<rparr>]"
  have k: "(0::int) \<le> 2" by simp
  have m: "0 \<le> max_results \<lparr>req_location = ''Boston'', req_injury_type = ''general'', max_results = 2\<rparr>"
    by simp
  from k m rank_and_endpoint_bounded [of 2 ?cal "''Emergency room chest pain''" ?corpus
      "\<lparr>req_location = ''Boston'', req_injury_type = ''general'', max_results = 2\<rparr>"
      json_loads_rejects openai_down]
  show ?thesis by simp
qed

text \<open>
  Without the bound on \<open>max_results\<close> the endpoint returns more: a request with
  \<open>max_results = -1\<close> is answered with two of the three records (the slice
  \<open>hospitals[:-1]\<close>).
\<close>

theorem endpoint_negative_max_results_counterexample:
  "\<not> int (length (hospitals (get_hospitals_from_rag json_loads_rejects openai_down
         \<lparr>req_location = ''Boston'', req_injury_type = ''general'', max_results = - 1\<rparr>)))
       \<le> max_results \<lparr>req_location = ''Boston'', req_injury_type = ''general'', max_results = - 1\<rparr>"
  by (simp add: endpoint_minus_one)

text \<open>
  C6. When the Document Store cannot be read, or is read and is empty, the Retrieval
  Service returns the result with \<open>documentsUsed = 0\<close> and no documents, for every
  query; \<open>retrieveContext\<close> is a total function, so no error leaves it.
\<close>

theorem retrieveContext_without_corpus:
  "retrieveContext cal (Inl e) query = \<lparr> documentsUsed = 0, enhanced = False, documents = [] \<rparr> \<and>
   retrieveContext cal (Inr []) query = \<lparr> documentsUsed = 0, enhanced = False, documents = [] \<rparr>"
  by (cases e) (simp add: retrieveContext_def rank_Nil)

theorem retrieveContext_without_corpus_witness:
  "documentsUsed (retrieveContext
      \<lparr> priority_terms = (\<lambda>c. if c = Emergency then [''emergency''] else []),
      category_of = (\<lambda>d. if doc_id d = ''1'' then Some Emergency else None) \<rparr>
      (Inl CorpusUnavailable) ''chest pain'') = 0 \<and>
   documents (retrieveContext
      \<lparr> priority_terms = (\<lambda>c. if c = Emergency then [''emergency''] else []),
      category_of = (\<lambda>d. if doc_id d = ''1'' then Some Emergency else None) \<rparr>
      (Inr []) ''chest pain'') = []"
proof -
  let ?cal = "\<lparr> priority_terms = (\<lambda>c. if c = Emergency then [''emergency''] else []),
                category_of = (\<lambda>d. if doc_id d = ''1'' then Some Emergency else None) \<rparr>"
  from retrieveContext_without_corpus [of ?cal CorpusUnavailable "''chest pain''"]
  show ?thesis by simp
qed

text \<open>
  C8. For every empty or white-space-only query the scorer returns relevancy 0 for
  every document, and so does every document the Ranking Engine returns; for every
  document with an empty body the scorer returns relevancy 0 and similarity 0; and
  both scores are always in the range from 0 to 1. The scorer and the ranking are
  total functions: nothing is raised.
\<close>

theorem blank_query_and_empty_body_score_zero:
  "((\<forall>c\<in>set query. is_space c) \<longrightarrow>
      fst (score cal query d) = 0 \<and> (\<forall>s\<in>set (rank cal query ds k). relevancy s = 0)) \<and>
   (body d = [] \<longrightarrow> score cal query d = (0, 0)) \<and>
   0 \<le> fst (score cal query d) \<and> fst (score cal query d) \<le> 1 \<and>
   0 \<le> snd (score cal query d) \<and> snd (score cal query d) \<le> 1"
  using tokenize_blank [of query] score_blank [of query cal d] rank_blank_zero [of query _ cal ds k]
    score_empty_body [of d cal query] score_range [of cal query d]
  by blast

theorem blank_query_and_empty_body_score_zero_witness:
  "map relevancy (rank
      \<lparr> priority_terms = (\<lambda>c. if c = Emergency then [''emergency''] else []),
      category_of = (\<lambda>d. if doc_id d = ''1'' then Some Emergency else None) \<rparr>
      [CHR '' '', CHR 0x09, CHR '' '']
      [\<lparr> doc_id = ''2'', title = ''Chest pain'', body = ''Chest pain and room'',
         source = ''General Healthcare Guidelines'' \<rparr>,
      \<lparr> doc_id = ''1'', title = ''Emergency'', body = ''Emergency guidelines'',
         source = ''Emergency Response Guidelines'' \<rparr>,
      \<lparr> doc_id = ''3'', title = ''Empty'', body = [],
         source = ''None'' \<rparr>] 3) = [0, 0, 0] \<and>
   score
      \<lparr> priority_terms = (\<lambda>c. if c = Emergency then [''emergency''] else []),
      category_of = (\<lambda>d. if doc_id d = ''1'' then Some Emergency else None) \<rparr>
      ''Emergency room'' \<lparr> doc_id = ''3'', title = ''Empty'', body = [], source = ''None'' \<rparr> = (0, 0)"
proof -
  let ?cal = "\<lparr> priority_terms = (\<lambda>c. if c = Emergency then [''emergency''] else []),
                category_of = (\<lambda>d. if doc_id d = ''1'' then Some Emergency else None) \<rparr>"
  let ?corpus = "[\<lparr> doc_id = ''2'', title = ''Chest pain'', body = ''Chest pain and room'',
                    source = ''General Healthcare Guidelines'' \<rparr>,
                 \<lparr> doc_id = ''1'', title = ''Emergency'', body = ''Emergency guidelines'',
                    source = ''Emergency Response Guidelines'' \<rparr>,
                 \<lparr> doc_id = ''3'', title = ''Empty'', body = [],
                    source = ''None'' \<rparr>]"
  let ?d = "\<lparr> doc_id = ''3'', title = ''Empty'', body = [], source = ''None'' \<rparr>"
  let ?q = "[CHR '' '', CHR 0x09, CHR '' '']"
  have blank: "\<forall>c\<in>set ?q. is_space c" by (simp add: is_space_def)
  have len: "length (rank ?cal ?q ?corpus 3) = 3"
    by (simp add: rank_def)
  have empty: "body ?d = []" by simp
  from blank blank_query_and_empty_body_score_zero [of ?q ?cal ?d ?corpus 3]
  have z: "\<forall>s\<in>set (rank ?cal ?q ?corpus 3). relevancy s = 0" by blast
  from empty blank_query_and_empty_body_score_zero [of "''Emergency room''" ?cal ?d ?corpus 3]
  have e: "score ?cal ''Emergency room'' ?d = (0, 0)" by blast
  from z have "map relevancy (rank ?cal ?q ?corpus 3)
                 = replicate (length (rank ?cal ?q ?corpus 3)) 0"
    by (simp add: map_replicate_const [symmetric] cong: map_cong)
  with len e show ?thesis by (simp add: numeral_3_eq_3)
qed

end
